theory Spec2Isabelle
  imports Complex_Main
begin

section \<open>Python values, exceptions and the observable world\<close>

text \<open>
  The API handler and the download manager work on parsed JSON: a response, a queue item
  and an episode are whatever the upstream service sent. A dictionary is an association
  list (keys of a parsed object are unique).
\<close>

datatype json =
    JNull
  | JBool bool
  | JInt int
  | JFloat real
  | JStr string
  | JList "json list"
  | JDict "(string \<times> json) list"

text \<open>
  Subclasses of Python's \<open>Exception\<close>: every one of them is caught by
  \<open>except Exception\<close>; only \<open>TimeoutError\<close> (asyncio.TimeoutError) is told apart.
\<close>

datatype exn =
    TimeoutError
  | KeyError
  | AttributeError
  | TypeError
  | IndexError
  | ZeroDivisionError
  | ValueError
  | OtherError

text \<open>Truth value of a Python object, as \<open>if x:\<close>, \<open>not x\<close> and \<open>x or y\<close> test it.\<close>

fun truthy :: "json \<Rightarrow> bool" where
  "truthy JNull = False"
| "truthy (JBool b) = b"
| "truthy (JInt i) = (i \<noteq> 0)"
| "truthy (JFloat r) = (r \<noteq> 0)"
| "truthy (JStr s) = (s \<noteq> [])"
| "truthy (JList xs) = (xs \<noteq> [])"
| "truthy (JDict kvs) = (kvs \<noteq> [])"

text \<open>
  \<open>obj.get(key, default)\<close>: a dictionary method. Lists and strings have no \<open>get\<close>
  (AttributeError), and neither have None, booleans and numbers.
\<close>

fun py_get :: "json \<Rightarrow> string \<Rightarrow> json \<Rightarrow> exn + json" where
  "py_get (JDict kvs) k d = Inr (case map_of kvs k of Some v \<Rightarrow> v | None \<Rightarrow> d)"
| "py_get _ k d = Inl AttributeError"

text \<open>
  \<open>obj[key]\<close> with a string key: KeyError on a dictionary without the key, TypeError on
  every other value (a list or a string wants an integer index, the rest is not
  subscriptable).
\<close>

fun py_subscript :: "json \<Rightarrow> string \<Rightarrow> exn + json" where
  "py_subscript (JDict kvs) k = (case map_of kvs k of Some v \<Rightarrow> Inr v | None \<Rightarrow> Inl KeyError)"
| "py_subscript _ k = Inl TypeError"

text \<open>\<open>xs[i]\<close> on a list: a negative index counts from the end, out of range raises.\<close>

definition py_index :: "'a list \<Rightarrow> int \<Rightarrow> exn + 'a" where
  "py_index xs i =
     (if 0 \<le> i \<and> i < int (length xs) then Inr (xs ! nat i)
      else if i < 0 \<and> - int (length xs) \<le> i then Inr (xs ! nat (int (length xs) + i))
      else Inl IndexError)"

type_synonym bytes = string

text \<open>
  The text of a status message: one constructor for each f-string of download_manager.py,
  with the values that the f-string formats.
  \<^item> \<open>MsgGettingStreamUrl title\<close>: "Downloading: {title} ... Getting stream URL..."
  \<^item> \<open>MsgFailedStreamUrl title\<close>: "Failed: Could not get stream URL ... Episode: {title}"
  \<^item> \<open>MsgProgress title percent size_mb\<close>: "Downloading: {title} ... Progress: {percent}% ... Size: {size_mb} MB"
  \<^item> \<open>MsgDownloadFailed title\<close>: "Download Failed ... Episode: {title} ... Please try again later"
  \<^item> \<open>MsgUploading title\<close>: "Uploading to Telegram ... {title}..."
  \<^item> \<open>MsgDownloadComplete title\<close>: "Download Complete! ... {title} has been downloaded and uploaded."
  \<^item> \<open>MsgUploadFailed filepath\<close>: "Download complete but upload failed ... File saved locally: {filepath}"
  \<^item> \<open>MsgError e\<close>: "Error ... {str(e)[:200]}"
\<close>

datatype message =
    MsgGettingStreamUrl json
  | MsgFailedStreamUrl json
  | MsgProgress json real real
  | MsgDownloadFailed json
  | MsgUploading json
  | MsgDownloadComplete json
  | MsgUploadFailed string
  | MsgError exn

text \<open>
  Calls on the chat client, the external collaborator that is notified and delivers:
  \<open>bot.send_message(user_id, text)\<close>, \<open>status_msg.edit_text(text)\<close>,
  \<open>bot.send_audio(chat_id, audio, title, performer="Pocket FM", duration)\<close> and
  \<open>status_msg.delete()\<close>.
\<close>

datatype bot_call =
    SendMessage json message
  | EditText message
  | SendAudio json string json json
  | DeleteStatus

datatype log_line =
    LogRotated string
  | LogRequest nat string
  | Log404 string
  | LogTimeout nat
  | LogRequestError exn
  | LogSearchSuccessful nat
  | LogSearchEndpointFailed string exn
  | LogAllSearchFailed
  | LogSeriesDetails string
  | LogSeriesDetailsFailed exn
  | LogEpisodesRetrieved nat
  | LogEpisodesFailed exn
  | LogStreamUrlObtained
  | LogStreamUrlFailed exn
  | LogNoStreamUrlFound
  | LogStartingDownload string
  | LogDownloadComplete string
  | LogDownloadHttpFailed nat
  | LogDownloadError exn
  | LogQueueStarted
  | LogQueueError exn
  | LogNoStreamUrl json
  | LogProcessed json json
  | LogUploadError exn
  | LogCleanedUp string
  | LogProcessingError json exn

text \<open>Everything the program does to the outside, in the order it does it.\<close>

datatype effect =
    Log log_line
  | Sleep int
  | HttpRequest string string json
  | HttpGet json
  | Mkdir string
  | OpenWrite string
  | Progress real int int
  | Bot bot_call
  | Remove string
  | Dequeued json
  | TaskDone

record world =
  base_urls :: "string list"
  current_url_index :: int
  trace :: "effect list"
  files :: "string \<Rightarrow> bytes option"
  now :: real
  last_update :: real

definition emit :: "effect \<Rightarrow> world \<Rightarrow> world" where
  "emit e w = w\<lparr>trace := trace w @ [e]\<rparr>"

section \<open>Configuration and environment\<close>

text \<open>
  The settings of config.py that the handler and the manager read. config.py sets
  \<open>RETRY_ATTEMPTS = 3\<close>, \<open>RETRY_DELAY = 2\<close> and \<open>DOWNLOAD_PATH\<close> from the process
  environment, \<open>downloads\<close> when unset.
\<close>

record config =
  RETRY_ATTEMPTS :: nat
  RETRY_DELAY :: int
  DOWNLOAD_PATH :: string

definition default_config :: config where
  "default_config = \<lparr>RETRY_ATTEMPTS = 3, RETRY_DELAY = 2, DOWNLOAD_PATH = ''downloads''\<rparr>"

text \<open>
  What the upstream service answers to a request of \<open>_make_request\<close>: a status and
  the outcome of \<open>response.json()\<close> (read on status 200 only), or an exception of the
  transport.
\<close>

datatype http_outcome =
    Responds nat "exn + json"
  | RequestRaises exn

text \<open>
  The content-length header as \<open>int(response.headers.get('content-length', 0))\<close> reads
  it: absent, an integer, or text that \<open>int\<close> rejects with ValueError.
\<close>

datatype content_length = NoContentLength | ContentLength int | BadContentLength

text \<open>
  The body of a download as \<open>iter_chunked\<close> yields it: a chunk, with the reading of the
  event loop's clock while that chunk is handled, or an exception that ends the stream.
\<close>

datatype stream_event = Chunk real bytes | StreamRaises exn

datatype fetch_outcome =
    Fetched nat content_length "stream_event list"
  | FetchRaises exn

text \<open>
  The environment answers each call from the history of effects so far, so that the same
  call may be answered differently each time. \<open>py_str\<close> is Python's built-in
  \<open>str\<close>, which formats a value inside an f-string.
\<close>

record env =
  http :: "effect list \<Rightarrow> string \<Rightarrow> string \<Rightarrow> json \<Rightarrow> http_outcome"
  fetch :: "effect list \<Rightarrow> json \<Rightarrow> fetch_outcome"
  bot_fault :: "effect list \<Rightarrow> bot_call \<Rightarrow> exn option"
  mkdir_fault :: "effect list \<Rightarrow> string \<Rightarrow> exn option"
  open_fault :: "effect list \<Rightarrow> string \<Rightarrow> exn option"
  remove_fault :: "effect list \<Rightarrow> string \<Rightarrow> exn option"
  py_str :: "json \<Rightarrow> string"

text \<open>\<open>len(x)\<close>: defined on strings, lists and dictionaries, TypeError on the rest.\<close>

fun py_len :: "json \<Rightarrow> exn + nat" where
  "py_len (JStr s) = Inr (length s)"
| "py_len (JList xs) = Inr (length xs)"
| "py_len (JDict kvs) = Inr (length kvs)"
| "py_len _ = Inl TypeError"


section \<open>Endpoint registry (api_handler.py, \<open>_get_base_url\<close> and \<open>_rotate_url\<close>)\<close>

definition get_base_url :: "world \<Rightarrow> (exn + string) \<times> world" where
  "get_base_url w =
     (let w1 = (if current_url_index w \<ge> int (length (base_urls w))
                then w\<lparr>current_url_index := 0\<rparr> else w)
      in (py_index (base_urls w1) (current_url_index w1), w1))"

text \<open>
  \<open>%\<close> raises ZeroDivisionError on an empty list of hosts. The warning that is logged
  formats \<open>_get_base_url()\<close>, so an exception of that call would leave \<open>_rotate_url\<close> too.
\<close>

definition rotate_url :: "world \<Rightarrow> (exn + unit) \<times> world" where
  "rotate_url w =
     (if length (base_urls w) = 0 then (Inl ZeroDivisionError, w)
      else
        (let w1 = w\<lparr>current_url_index :=
                       (current_url_index w + 1) mod int (length (base_urls w))\<rparr>
         in case get_base_url w1 of
              (Inl e, w2) \<Rightarrow> (Inl e, w2)
            | (Inr u, w2) \<Rightarrow> (Inr (), emit (Log (LogRotated u)) w2)))"

text \<open>\<open>n\<close> consecutive calls of \<open>_rotate_url\<close>; an exception ends the sequence.\<close>

fun rotate_n :: "nat \<Rightarrow> world \<Rightarrow> (exn + unit) \<times> world" where
  "rotate_n 0 w = (Inr (), w)"
| "rotate_n (Suc n) w =
     (case rotate_url w of
        (Inl e, w1) \<Rightarrow> (Inl e, w1)
      | (Inr u, w1) \<Rightarrow> rotate_n n w1)"

section \<open>Resilient client (api_handler.py, \<open>_make_request\<close>)\<close>

text \<open>
  The body of the \<open>try\<close> of one attempt. \<open>Inr (Some j)\<close>: the function returns \<open>j\<close>;
  \<open>Inr None\<close>: the body ends and the loop goes on; \<open>Inl e\<close>: \<open>e\<close> is raised inside
  the \<open>try\<close>. \<open>init_session\<close> only builds the client session object and is left out.
\<close>

definition attempt_request ::
  "config \<Rightarrow> env \<Rightarrow> string \<Rightarrow> string \<Rightarrow> json \<Rightarrow> nat \<Rightarrow> world \<Rightarrow> (exn + json option) \<times> world" where
  "attempt_request cfg ev method endpoint params attempt w =
     (case get_base_url w of
        (Inl e, w1) \<Rightarrow> (Inl e, w1)
      | (Inr base_url, w1) \<Rightarrow>
          (let url = base_url @ endpoint;
               w2 = emit (Log (LogRequest (attempt + 1) url)) w1;
               w3 = emit (HttpRequest method url params) w2
           in case http ev (trace w2) method url params of
                RequestRaises e \<Rightarrow> (Inl e, w3)
              | Responds status body \<Rightarrow>
                  if status = 200 then
                    (case body of Inl e \<Rightarrow> (Inl e, w3) | Inr j \<Rightarrow> (Inr (Some j), w3))
                  else if status = 404 then
                    (case rotate_url (emit (Log (Log404 endpoint)) w3) of
                       (Inl e, w4) \<Rightarrow> (Inl e, w4)
                     | (Inr u, w4) \<Rightarrow> (Inr None, w4))
                  else if status = 429 \<or> status = 503 then
                    (Inr None, emit (Sleep (RETRY_DELAY cfg * (int attempt + 1))) w3)
                  else (Inr None, w3)))"

text \<open>
  One attempt with its handlers: \<open>except asyncio.TimeoutError\<close> sleeps, \<open>except Exception\<close>
  rotates; an exception of the rotation inside the handler leaves \<open>_make_request\<close>.
\<close>

definition make_request_attempt ::
  "config \<Rightarrow> env \<Rightarrow> string \<Rightarrow> string \<Rightarrow> json \<Rightarrow> nat \<Rightarrow> world \<Rightarrow> (exn + json option) \<times> world" where
  "make_request_attempt cfg ev method endpoint params attempt w =
     (case attempt_request cfg ev method endpoint params attempt w of
        (Inr r, w1) \<Rightarrow> (Inr r, w1)
      | (Inl e, w1) \<Rightarrow>
          if e = TimeoutError then
            (Inr None, emit (Sleep (RETRY_DELAY cfg)) (emit (Log (LogTimeout (attempt + 1))) w1))
          else
            (case rotate_url (emit (Log (LogRequestError e)) w1) of
               (Inl e', w2) \<Rightarrow> (Inl e', w2)
             | (Inr u, w2) \<Rightarrow> (Inr None, w2)))"

text \<open>\<open>for attempt in range(self.retry_attempts)\<close>, then \<open>return None\<close>.\<close>

fun make_request_loop ::
  "config \<Rightarrow> env \<Rightarrow> string \<Rightarrow> string \<Rightarrow> json \<Rightarrow> nat list \<Rightarrow> world \<Rightarrow> (exn + json) \<times> world" where
  "make_request_loop cfg ev method endpoint params [] w = (Inr JNull, w)"
| "make_request_loop cfg ev method endpoint params (attempt # rest) w =
     (case make_request_attempt cfg ev method endpoint params attempt w of
        (Inl e, w1) \<Rightarrow> (Inl e, w1)
      | (Inr (Some j), w1) \<Rightarrow> (Inr j, w1)
      | (Inr None, w1) \<Rightarrow> make_request_loop cfg ev method endpoint params rest w1)"

definition make_request ::
  "config \<Rightarrow> env \<Rightarrow> string \<Rightarrow> string \<Rightarrow> json \<Rightarrow> world \<Rightarrow> (exn + json) \<times> world" where
  "make_request cfg ev method endpoint params w =
     make_request_loop cfg ev method endpoint params [0..<RETRY_ATTEMPTS cfg] w"

section \<open>Catalog resolver (api_handler.py)\<close>

text \<open>
  The loop that the four operations share:
  \<open>for endpoint in endpoints: try: body except Exception as e: logger.error(...)\<close>.
  \<open>Inr (Some r)\<close>: the body returned \<open>r\<close> from the operation; \<open>Inr None\<close>: every
  candidate was tried and the loop ended.
\<close>

fun try_endpoints ::
  "('a \<Rightarrow> world \<Rightarrow> (exn + json option) \<times> world) \<Rightarrow> ('a \<Rightarrow> exn \<Rightarrow> log_line) \<Rightarrow>
   'a list \<Rightarrow> world \<Rightarrow> (exn + json option) \<times> world" where
  "try_endpoints body on_error [] w = (Inr None, w)"
| "try_endpoints body on_error (c # rest) w =
     (case body c w of
        (Inr (Some r), w1) \<Rightarrow> (Inr (Some r), w1)
      | (Inr None, w1) \<Rightarrow> try_endpoints body on_error rest w1
      | (Inl e, w1) \<Rightarrow> try_endpoints body on_error rest (emit (Log (on_error c e)) w1))"

subsection \<open>\<open>search_series\<close>\<close>

definition search_endpoints :: "string \<Rightarrow> int \<Rightarrow> (string \<times> json) list" where
  "search_endpoints query limit =
     [(''/api/v1/search'',
         JDict [(''q'', JStr query), (''type'', JStr ''series''), (''limit'', JInt limit)]),
      (''/api/v2/search'',
         JDict [(''q'', JStr query), (''type'', JStr ''series''), (''limit'', JInt limit)]),
      (''/search'',
         JDict [(''q'', JStr query), (''type'', JStr ''series''), (''limit'', JInt limit)]),
      (''/series/search'', JDict [(''q'', JStr query), (''limit'', JInt limit)])]"

text \<open>
  \<open>response.get("results", []) or response.get("data", {}).get("series", []) or
  response.get("data", []) or response.get("series", [])\<close>, evaluated left to right.
\<close>

definition extract_search_results :: "json \<Rightarrow> exn + json" where
  "extract_search_results response =
     (case py_get response ''results'' (JList []) of
        Inl e \<Rightarrow> Inl e
      | Inr r1 \<Rightarrow>
          if truthy r1 then Inr r1
          else
            (case py_get response ''data'' (JDict []) of
               Inl e \<Rightarrow> Inl e
             | Inr d \<Rightarrow>
                 (case py_get d ''series'' (JList []) of
                    Inl e \<Rightarrow> Inl e
                  | Inr r2 \<Rightarrow>
                      if truthy r2 then Inr r2
                      else
                        (case py_get response ''data'' (JList []) of
                           Inl e \<Rightarrow> Inl e
                         | Inr r3 \<Rightarrow>
                             if truthy r3 then Inr r3
                             else py_get response ''series'' (JList [])))))"

definition search_body ::
  "config \<Rightarrow> env \<Rightarrow> string \<times> json \<Rightarrow> world \<Rightarrow> (exn + json option) \<times> world" where
  "search_body cfg ev c w =
     (case make_request cfg ev ''GET'' (fst c) (snd c) w of
        (Inl e, w1) \<Rightarrow> (Inl e, w1)
      | (Inr response, w1) \<Rightarrow>
          if truthy response then
            (case extract_search_results response of
               Inl e \<Rightarrow> (Inl e, w1)
             | Inr results \<Rightarrow>
                 if truthy results then
                   (case py_len results of
                      Inl e \<Rightarrow> (Inl e, w1)
                    | Inr n \<Rightarrow> (Inr (Some results), emit (Log (LogSearchSuccessful n)) w1))
                 else (Inr None, w1))
          else (Inr None, w1))"

definition search_series ::
  "config \<Rightarrow> env \<Rightarrow> string \<Rightarrow> int \<Rightarrow> world \<Rightarrow> (exn + json) \<times> world" where
  "search_series cfg ev query limit w =
     (case try_endpoints (search_body cfg ev) (\<lambda>c e. LogSearchEndpointFailed (fst c) e)
             (search_endpoints query limit) w of
        (Inl e, w1) \<Rightarrow> (Inl e, w1)
      | (Inr (Some results), w1) \<Rightarrow> (Inr results, w1)
      | (Inr None, w1) \<Rightarrow> (Inr (JList []), emit (Log LogAllSearchFailed) w1))"

subsection \<open>\<open>get_series_details\<close>\<close>

definition details_endpoints :: "string \<Rightarrow> string list" where
  "details_endpoints series_id =
     [''/api/v1/series/'' @ series_id, ''/api/v2/series/'' @ series_id, ''/series/'' @ series_id]"

definition details_body ::
  "config \<Rightarrow> env \<Rightarrow> string \<Rightarrow> world \<Rightarrow> (exn + json option) \<times> world" where
  "details_body cfg ev endpoint w =
     (case make_request cfg ev ''GET'' endpoint (JDict []) w of
        (Inl e, w1) \<Rightarrow> (Inl e, w1)
      | (Inr response, w1) \<Rightarrow>
          if truthy response then (Inr (Some response), emit (Log (LogSeriesDetails endpoint)) w1)
          else (Inr None, w1))"

definition get_series_details ::
  "config \<Rightarrow> env \<Rightarrow> string \<Rightarrow> world \<Rightarrow> (exn + json) \<times> world" where
  "get_series_details cfg ev series_id w =
     (case try_endpoints (details_body cfg ev) (\<lambda>c e. LogSeriesDetailsFailed e)
             (details_endpoints series_id) w of
        (Inl e, w1) \<Rightarrow> (Inl e, w1)
      | (Inr (Some response), w1) \<Rightarrow> (Inr response, w1)
      | (Inr None, w1) \<Rightarrow> (Inr JNull, w1))"

subsection \<open>\<open>get_episodes\<close>\<close>

definition episodes_endpoints :: "string \<Rightarrow> string list" where
  "episodes_endpoints series_id =
     [''/api/v1/series/'' @ series_id @ ''/episodes'',
      ''/api/v2/series/'' @ series_id @ ''/episodes'',
      ''/series/'' @ series_id @ ''/episodes'']"

text \<open>
  \<open>response.get("episodes", []) or response.get("data", []) or response.get("items", [])\<close>.
\<close>

definition extract_episodes :: "json \<Rightarrow> exn + json" where
  "extract_episodes response =
     (case py_get response ''episodes'' (JList []) of
        Inl e \<Rightarrow> Inl e
      | Inr r1 \<Rightarrow>
          if truthy r1 then Inr r1
          else
            (case py_get response ''data'' (JList []) of
               Inl e \<Rightarrow> Inl e
             | Inr r2 \<Rightarrow>
                 if truthy r2 then Inr r2 else py_get response ''items'' (JList [])))"

definition episodes_body ::
  "config \<Rightarrow> env \<Rightarrow> int \<Rightarrow> string \<Rightarrow> world \<Rightarrow> (exn + json option) \<times> world" where
  "episodes_body cfg ev limit endpoint w =
     (case make_request cfg ev ''GET'' endpoint (JDict [(''limit'', JInt limit)]) w of
        (Inl e, w1) \<Rightarrow> (Inl e, w1)
      | (Inr response, w1) \<Rightarrow>
          if truthy response then
            (case extract_episodes response of
               Inl e \<Rightarrow> (Inl e, w1)
             | Inr episodes \<Rightarrow>
                 if truthy episodes then
                   (case py_len episodes of
                      Inl e \<Rightarrow> (Inl e, w1)
                    | Inr n \<Rightarrow> (Inr (Some episodes), emit (Log (LogEpisodesRetrieved n)) w1))
                 else (Inr None, w1))
          else (Inr None, w1))"

definition get_episodes ::
  "config \<Rightarrow> env \<Rightarrow> string \<Rightarrow> int \<Rightarrow> world \<Rightarrow> (exn + json) \<times> world" where
  "get_episodes cfg ev series_id limit w =
     (case try_endpoints (episodes_body cfg ev limit) (\<lambda>c e. LogEpisodesFailed e)
             (episodes_endpoints series_id) w of
        (Inl e, w1) \<Rightarrow> (Inl e, w1)
      | (Inr (Some episodes), w1) \<Rightarrow> (Inr episodes, w1)
      | (Inr None, w1) \<Rightarrow> (Inr (JList []), w1))"

subsection \<open>\<open>get_stream_url\<close>\<close>

text \<open>The episode id is formatted into the path by an f-string.\<close>

definition stream_endpoints :: "env \<Rightarrow> json \<Rightarrow> string list" where
  "stream_endpoints ev episode_id =
     [''/api/v1/episodes/'' @ py_str ev episode_id @ ''/stream'',
      ''/api/v2/episodes/'' @ py_str ev episode_id @ ''/stream'',
      ''/episodes/'' @ py_str ev episode_id @ ''/stream'',
      ''/stream/'' @ py_str ev episode_id]"

text \<open>\<open>response.get("url") or response.get("stream_url")\<close>.\<close>

definition extract_stream_url :: "json \<Rightarrow> exn + json" where
  "extract_stream_url response =
     (case py_get response ''url'' JNull of
        Inl e \<Rightarrow> Inl e
      | Inr u \<Rightarrow> if truthy u then Inr u else py_get response ''stream_url'' JNull)"

definition stream_body ::
  "config \<Rightarrow> env \<Rightarrow> string \<Rightarrow> string \<Rightarrow> world \<Rightarrow> (exn + json option) \<times> world" where
  "stream_body cfg ev quality endpoint w =
     (case make_request cfg ev ''GET'' endpoint (JDict [(''quality'', JStr quality)]) w of
        (Inl e, w1) \<Rightarrow> (Inl e, w1)
      | (Inr response, w1) \<Rightarrow>
          if truthy response then
            (case extract_stream_url response of
               Inl e \<Rightarrow> (Inl e, w1)
             | Inr url \<Rightarrow>
                 if truthy url then (Inr (Some url), emit (Log LogStreamUrlObtained) w1)
                 else (Inr None, w1))
          else (Inr None, w1))"

definition get_stream_url ::
  "config \<Rightarrow> env \<Rightarrow> json \<Rightarrow> string \<Rightarrow> world \<Rightarrow> (exn + json) \<times> world" where
  "get_stream_url cfg ev episode_id quality w =
     (case try_endpoints (stream_body cfg ev quality) (\<lambda>c e. LogStreamUrlFailed e)
             (stream_endpoints ev episode_id) w of
        (Inl e, w1) \<Rightarrow> (Inl e, w1)
      | (Inr (Some url), w1) \<Rightarrow> (Inr url, w1)
      | (Inr None, w1) \<Rightarrow> (Inr JNull, emit (Log LogNoStreamUrlFound) w1))"


section \<open>Transfer engine (api_handler.py, \<open>download_file\<close>)\<close>

definition parse_content_length :: "content_length \<Rightarrow> exn + int" where
  "parse_content_length cl =
     (case cl of
        NoContentLength \<Rightarrow> Inr 0
      | ContentLength n \<Rightarrow> Inr n
      | BadContentLength \<Rightarrow> Inl ValueError)"

text \<open>\<open>aiofiles.open(filepath, 'wb')\<close>: creates the file, or empties the one that is there.\<close>

definition open_wb :: "env \<Rightarrow> string \<Rightarrow> world \<Rightarrow> (exn + unit) \<times> world" where
  "open_wb ev path w =
     (case open_fault ev (trace w) path of
        Some e \<Rightarrow> (Inl e, emit (OpenWrite path) w)
      | None \<Rightarrow> (Inr (), (emit (OpenWrite path) w)\<lparr>files := (files w)(path \<mapsto> [])\<rparr>))"

definition append_bytes :: "string \<Rightarrow> bytes \<Rightarrow> world \<Rightarrow> world" where
  "append_bytes path chunk w =
     w\<lparr>files := (files w)(path \<mapsto> (case files w path of None \<Rightarrow> chunk | Some old \<Rightarrow> old @ chunk))\<rparr>"

type_synonym progress_callback = "real \<Rightarrow> int \<Rightarrow> int \<Rightarrow> world \<Rightarrow> (exn + unit) \<times> world"

text \<open>
  \<open>async for chunk in response.content.iter_chunked(config.CHUNK_SIZE)\<close>. Each call of the
  callback is recorded as a \<open>Progress\<close> effect before the callback runs.
\<close>

fun write_chunks ::
  "string \<Rightarrow> progress_callback option \<Rightarrow> int \<Rightarrow> int \<Rightarrow> stream_event list \<Rightarrow> world \<Rightarrow>
   (exn + unit) \<times> world" where
  "write_chunks path cb total_size downloaded [] w = (Inr (), w)"
| "write_chunks path cb total_size downloaded (StreamRaises e # rest) w = (Inl e, w)"
| "write_chunks path cb total_size downloaded (Chunk t chunk # rest) w =
     (let w1 = append_bytes path chunk (w\<lparr>now := t\<rparr>);
          downloaded1 = downloaded + int (length chunk)
      in case cb of
           None \<Rightarrow> write_chunks path cb total_size downloaded1 rest w1
         | Some f \<Rightarrow>
             if total_size > 0 then
               (let progress = (real_of_int downloaded1 / real_of_int total_size) * 100
                in case f progress downloaded1 total_size
                          (emit (Progress progress downloaded1 total_size) w1) of
                     (Inl e, w2) \<Rightarrow> (Inl e, w2)
                   | (Inr u, w2) \<Rightarrow> write_chunks path cb total_size downloaded1 rest w2)
             else write_chunks path cb total_size downloaded1 rest w1)"

text \<open>The branch of a 200 or 206 response, up to the first exception.\<close>

definition receive_body ::
  "env \<Rightarrow> string \<Rightarrow> progress_callback option \<Rightarrow> content_length \<Rightarrow> stream_event list \<Rightarrow> world \<Rightarrow>
   (exn + unit) \<times> world" where
  "receive_body ev filepath cb cl chunks w =
     (case parse_content_length cl of
        Inl e \<Rightarrow> (Inl e, w)
      | Inr total_size \<Rightarrow>
          (case open_wb ev filepath w of
             (Inl e, w1) \<Rightarrow> (Inl e, w1)
           | (Inr u, w1) \<Rightarrow> write_chunks filepath cb total_size 0 chunks w1))"

definition download_file ::
  "env \<Rightarrow> json \<Rightarrow> string \<Rightarrow> progress_callback option \<Rightarrow> world \<Rightarrow> bool \<times> world" where
  "download_file ev url filepath cb w =
     (let w0 = emit (Log (LogStartingDownload filepath)) w;
          w1 = emit (HttpGet url) w0
      in case fetch ev (trace w0) url of
           FetchRaises e \<Rightarrow> (False, emit (Log (LogDownloadError e)) w1)
         | Fetched status cl chunks \<Rightarrow>
             if status = 200 \<or> status = 206 then
               (case receive_body ev filepath cb cl chunks w1 of
                  (Inl e, w2) \<Rightarrow> (False, emit (Log (LogDownloadError e)) w2)
                | (Inr u, w2) \<Rightarrow> (True, emit (Log (LogDownloadComplete filepath)) w2))
             else (False, emit (Log (LogDownloadHttpFailed status)) w1))"

section \<open>Work queue and dispatcher (download_manager.py)\<close>

definition call_bot :: "env \<Rightarrow> bot_call \<Rightarrow> world \<Rightarrow> (exn + unit) \<times> world" where
  "call_bot ev c w =
     (case bot_fault ev (trace w) c of
        Some e \<Rightarrow> (Inl e, emit (Bot c) w)
      | None \<Rightarrow> (Inr (), emit (Bot c) w))"

text \<open>
  The closure \<open>download_progress\<close>, with the cell \<open>last_update[0]\<close> as a field of the
  world. An exception of \<open>edit_text\<close> is swallowed by the bare \<open>except\<close>.
\<close>

definition download_progress :: "env \<Rightarrow> json \<Rightarrow> progress_callback" where
  "download_progress ev episode_title percent downloaded total_size w =
     (let current_time = now w
      in if current_time - last_update w > 2 then
           (let size_mb = real_of_int total_size / (1024 * 1024);
                w1 = snd (call_bot ev (EditText (MsgProgress episode_title percent size_mb)) w)
            in (Inr (), w1\<lparr>last_update := current_time\<rparr>))
         else (Inr (), w))"

text \<open>\<open>Path(config.DOWNLOAD_PATH).mkdir(parents=True, exist_ok=True)\<close>.\<close>

definition make_dirs :: "env \<Rightarrow> string \<Rightarrow> world \<Rightarrow> (exn + unit) \<times> world" where
  "make_dirs ev path w =
     (case mkdir_fault ev (trace w) path of
        Some e \<Rightarrow> (Inl e, emit (Mkdir path) w)
      | None \<Rightarrow> (Inr (), emit (Mkdir path) w))"

text \<open>\<open>os.path.join\<close> of two components on POSIX: an absolute second component wins.\<close>

definition path_join :: "string \<Rightarrow> string \<Rightarrow> string" where
  "path_join a b =
     (if b \<noteq> [] \<and> hd b = CHR ''/'' then b
      else if a = [] \<or> last a = CHR ''/'' then a @ b
      else a @ ''/'' @ b)"

text \<open>
  The \<open>finally\<close> block: \<open>if os.path.exists(filepath): try: os.remove(filepath) except: pass\<close>.
\<close>

definition cleanup :: "env \<Rightarrow> string \<Rightarrow> world \<Rightarrow> world" where
  "cleanup ev filepath w =
     (if files w filepath \<noteq> None then
        (case remove_fault ev (trace w) filepath of
           Some e \<Rightarrow> emit (Remove filepath) w
         | None \<Rightarrow>
             emit (Log (LogCleanedUp filepath))
               ((emit (Remove filepath) w)\<lparr>files := (files w)(filepath := None)\<rparr>))
      else w)"

text \<open>The body of the inner \<open>try\<close>: deliver the file, drop the status message, report success.\<close>

definition deliver ::
  "env \<Rightarrow> json \<Rightarrow> json \<Rightarrow> json \<Rightarrow> json \<Rightarrow> string \<Rightarrow> world \<Rightarrow> (exn + unit) \<times> world" where
  "deliver ev user_id episode episode_id episode_title filepath w =
     (case py_get episode ''duration'' (JInt 0) of
        Inl e \<Rightarrow> (Inl e, w)
      | Inr duration \<Rightarrow>
          (case call_bot ev (SendAudio user_id filepath episode_title duration) w of
             (Inl e, w1) \<Rightarrow> (Inl e, w1)
           | (Inr u, w1) \<Rightarrow>
               (case call_bot ev DeleteStatus w1 of
                  (Inl e, w2) \<Rightarrow> (Inl e, w2)
                | (Inr u, w2) \<Rightarrow>
                    (case call_bot ev (SendMessage user_id (MsgDownloadComplete episode_title)) w2 of
                       (Inl e, w3) \<Rightarrow> (Inl e, w3)
                     | (Inr u, w3) \<Rightarrow> (Inr (), emit (Log (LogProcessed episode_id user_id)) w3)))))"

text \<open>
  The inner \<open>try ... except Exception ... finally\<close>: the handler reports the failed upload
  (an exception of that report goes on to the outer handler), and the \<open>finally\<close> block
  runs on every path.
\<close>

definition upload_step ::
  "env \<Rightarrow> json \<Rightarrow> json \<Rightarrow> json \<Rightarrow> json \<Rightarrow> string \<Rightarrow> world \<Rightarrow> (exn + unit) \<times> world" where
  "upload_step ev user_id episode episode_id episode_title filepath w =
     (case (case deliver ev user_id episode episode_id episode_title filepath w of
              (Inr u, w1) \<Rightarrow> (Inr u, w1)
            | (Inl e, w1) \<Rightarrow>
                call_bot ev (EditText (MsgUploadFailed filepath)) (emit (Log (LogUploadError e)) w1)) of
        (r, w2) \<Rightarrow> (r, cleanup ev filepath w2))"

text \<open>The outer \<open>try\<close> of \<open>_process_item\<close> after the first status message was sent.\<close>

definition process_item_steps ::
  "config \<Rightarrow> env \<Rightarrow> json \<Rightarrow> json \<Rightarrow> json \<Rightarrow> json \<Rightarrow> world \<Rightarrow> (exn + unit) \<times> world" where
  "process_item_steps cfg ev user_id episode episode_id episode_title w =
     (case get_stream_url cfg ev episode_id ''high'' w of
        (Inl e, w1) \<Rightarrow> (Inl e, w1)
      | (Inr stream_url, w1) \<Rightarrow>
          if \<not> truthy stream_url then
            (case call_bot ev (EditText (MsgFailedStreamUrl episode_title)) w1 of
               (Inl e, w2) \<Rightarrow> (Inl e, w2)
             | (Inr u, w2) \<Rightarrow> (Inr (), emit (Log (LogNoStreamUrl episode_id)) w2))
          else
            (case make_dirs ev (DOWNLOAD_PATH cfg) w1 of
               (Inl e, w2) \<Rightarrow> (Inl e, w2)
             | (Inr u, w2) \<Rightarrow>
                 (let filepath = path_join (DOWNLOAD_PATH cfg) (py_str ev episode_id @ ''.mp3'');
                      w3 = w2\<lparr>last_update := 0\<rparr>
                  in case download_file ev stream_url filepath
                            (Some (download_progress ev episode_title)) w3 of
                       (False, w4) \<Rightarrow> call_bot ev (EditText (MsgDownloadFailed episode_title)) w4
                     | (True, w4) \<Rightarrow>
                         (case call_bot ev (EditText (MsgUploading episode_title)) w4 of
                            (Inl e, w5) \<Rightarrow> (Inl e, w5)
                          | (Inr u, w5) \<Rightarrow>
                              upload_step ev user_id episode episode_id episode_title filepath w5))))"

text \<open>
  \<open>_process_item\<close>. The four reads of the item stand before the \<open>try\<close>, so their
  exceptions leave the function. \<open>status_msg\<close> is None until the first message is sent:
  the handler of the outer \<open>try\<close> edits the status message only after that.
\<close>

definition process_item :: "config \<Rightarrow> env \<Rightarrow> json \<Rightarrow> world \<Rightarrow> (exn + unit) \<times> world" where
  "process_item cfg ev item w =
     (case py_subscript item ''user_id'' of
        Inl e \<Rightarrow> (Inl e, w)
      | Inr user_id \<Rightarrow>
     (case py_subscript item ''episode'' of
        Inl e \<Rightarrow> (Inl e, w)
      | Inr episode \<Rightarrow>
     (case py_get episode ''id'' (JStr ''unknown'') of
        Inl e \<Rightarrow> (Inl e, w)
      | Inr episode_id \<Rightarrow>
     (case py_get episode ''title'' (JStr ''Unknown Episode'') of
        Inl e \<Rightarrow> (Inl e, w)
      | Inr episode_title \<Rightarrow>
          (case call_bot ev (SendMessage user_id (MsgGettingStreamUrl episode_title)) w of
             (Inl e, w1) \<Rightarrow> (Inr (), emit (Log (LogProcessingError episode_id e)) w1)
           | (Inr u, w1) \<Rightarrow>
               (case process_item_steps cfg ev user_id episode episode_id episode_title w1 of
                  (Inr u, w2) \<Rightarrow> (Inr (), w2)
                | (Inl e, w2) \<Rightarrow>
                    (Inr (),
                     snd (call_bot ev (EditText (MsgError e))
                            (emit (Log (LogProcessingError episode_id e)) w2)))))))))"

text \<open>
  What \<open>asyncio.wait_for(self.queue.get(), timeout=30)\<close> gives in one round of the loop:
  an item, or an exception (TimeoutError when nothing arrived in 30 seconds).
\<close>

datatype queue_event = Item json | GetRaises exn

definition add_to_queue :: "json \<Rightarrow> json \<Rightarrow> json" where
  "add_to_queue user_id episode =
     JDict [(''user_id'', user_id), (''episode'', episode), (''status'', JStr ''queued'')]"

text \<open>
  \<open>while True\<close> over the rounds that the queue gives. \<open>Inr ()\<close>: every round is done and
  the loop is waiting on the queue again; \<open>Inl e\<close>: \<open>e\<close> left the loop and ended it.
\<close>

fun process_queue_loop ::
  "config \<Rightarrow> env \<Rightarrow> queue_event list \<Rightarrow> world \<Rightarrow> (exn + unit) \<times> world" where
  "process_queue_loop cfg ev [] w = (Inr (), w)"
| "process_queue_loop cfg ev (GetRaises e # rest) w =
     (if e = TimeoutError then process_queue_loop cfg ev rest w
      else process_queue_loop cfg ev rest (emit (Sleep 5) (emit (Log (LogQueueError e)) w)))"
| "process_queue_loop cfg ev (Item item # rest) w =
     (case process_item cfg ev item (emit (Dequeued item) w) of
        (Inr u, w1) \<Rightarrow> process_queue_loop cfg ev rest (emit TaskDone w1)
      | (Inl e, w1) \<Rightarrow>
          if e = TimeoutError then process_queue_loop cfg ev rest w1
          else process_queue_loop cfg ev rest (emit (Sleep 5) (emit (Log (LogQueueError e)) w1)))"

definition process_queue ::
  "config \<Rightarrow> env \<Rightarrow> queue_event list \<Rightarrow> world \<Rightarrow> (exn + unit) \<times> world" where
  "process_queue cfg ev rounds w = process_queue_loop cfg ev rounds (emit (Log LogQueueStarted) w)"


section \<open>Properties of the endpoint registry\<close>

lemma rotate_url_nonempty:
  assumes "base_urls w \<noteq> []"
  shows "rotate_url w =
           (Inr (),
            emit (Log (LogRotated (base_urls w !
                    nat ((current_url_index w + 1) mod int (length (base_urls w))))))
              (w\<lparr>current_url_index :=
                   (current_url_index w + 1) mod int (length (base_urls w))\<rparr>))"
proof -
  let ?n = "int (length (base_urls w))"
  let ?c = "(current_url_index w + 1) mod ?n"
  from assms have pos: "0 < ?n" by simp
  then have lo: "0 \<le> ?c" and hi: "?c < ?n" by simp_all
  have g: "get_base_url (w\<lparr>current_url_index := ?c\<rparr>) =
             (Inr (base_urls w ! nat ?c), w\<lparr>current_url_index := ?c\<rparr>)"
    unfolding get_base_url_def py_index_def Let_def using lo hi by auto
  show ?thesis
    unfolding rotate_url_def Let_def g using assms by simp
qed

lemma rotate_url_cursor:
  assumes "base_urls w \<noteq> []"
  shows "current_url_index (snd (rotate_url w)) =
           (current_url_index w + 1) mod int (length (base_urls w))"
    and "base_urls (snd (rotate_url w)) = base_urls w"
    and "fst (rotate_url w) = Inr ()"
  using rotate_url_nonempty [OF assms] by (simp_all add: emit_def)

lemma rotate_n_cursor:
  "base_urls w \<noteq> [] \<Longrightarrow>
     fst (rotate_n k w) = Inr () \<and>
     base_urls (snd (rotate_n k w)) = base_urls w \<and>
     current_url_index (snd (rotate_n k w)) =
       (if k = 0 then current_url_index w
        else (current_url_index w + int k) mod int (length (base_urls w)))"
proof (induction k arbitrary: w)
  case 0
  then show ?case by simp
next
  case (Suc k)
  let ?N = "int (length (base_urls w))"
  obtain w1 where r: "rotate_url w = (Inr (), w1)"
    using rotate_url_nonempty [OF Suc.prems] by blast
  have b1: "base_urls w1 = base_urls w"
    using rotate_url_cursor(2) [OF Suc.prems] by (simp add: r)
  have c1: "current_url_index w1 = (current_url_index w + 1) mod ?N"
    using rotate_url_cursor(1) [OF Suc.prems] by (simp add: r)
  from b1 Suc.prems have ne1: "base_urls w1 \<noteq> []" by simp
  note ih = Suc.IH [OF ne1]
  have step: "rotate_n (Suc k) w = rotate_n k w1"
    by (simp add: r)
  have arith: "((current_url_index w + 1) mod ?N + int k) mod ?N =
                 (current_url_index w + int (Suc k)) mod ?N"
    by (simp add: mod_simps ac_simps)
  show ?case
    unfolding step using ih arith unfolding b1 c1 by (cases "k = 0") auto
qed

text \<open>
  Claim C8. Endpoint rotation is circular: on a registry of N hosts (N at least 1) with
  the cursor on one of them, N consecutive rotations raise nothing and bring the cursor,
  and so the current host, back to where it started; one rotation never raises on a
  non-empty registry, whatever the cursor; and on a registry of a single host a
  rotation leaves the cursor where it was.
\<close>

theorem rotation_is_circular:
  assumes "base_urls w \<noteq> []"
  shows "(0 \<le> current_url_index w \<and> current_url_index w < int (length (base_urls w)) \<longrightarrow>
            fst (rotate_n (length (base_urls w)) w) = Inr () \<and>
            current_url_index (snd (rotate_n (length (base_urls w)) w)) = current_url_index w \<and>
            fst (get_base_url (snd (rotate_n (length (base_urls w)) w))) = fst (get_base_url w)) \<and>
         fst (rotate_url w) = Inr () \<and>
         (length (base_urls w) = 1 \<and> current_url_index w = 0 \<longrightarrow>
            current_url_index (snd (rotate_url w)) = 0)"
proof -
  let ?N = "length (base_urls w)"
  from assms have pos: "0 < ?N" by simp
  note rn = rotate_n_cursor [OF assms, of ?N]
  have circ: "0 \<le> current_url_index w \<and> current_url_index w < int ?N \<longrightarrow>
          fst (rotate_n ?N w) = Inr () \<and>
          current_url_index (snd (rotate_n ?N w)) = current_url_index w \<and>
          fst (get_base_url (snd (rotate_n ?N w))) = fst (get_base_url w)"
  proof
    assume range: "0 \<le> current_url_index w \<and> current_url_index w < int ?N"
    from rn pos range have c: "current_url_index (snd (rotate_n ?N w)) = current_url_index w"
      by simp
    from rn have b: "base_urls (snd (rotate_n ?N w)) = base_urls w" by simp
    from c b range have "fst (get_base_url (snd (rotate_n ?N w))) = fst (get_base_url w)"
      by (simp add: get_base_url_def Let_def)
    with rn c show "fst (rotate_n ?N w) = Inr () \<and>
          current_url_index (snd (rotate_n ?N w)) = current_url_index w \<and>
          fst (get_base_url (snd (rotate_n ?N w))) = fst (get_base_url w)"
      by simp
  qed
  have noerr: "fst (rotate_url w) = Inr ()"
    using assms by (rule rotate_url_cursor(3))
  have single: "length (base_urls w) = 1 \<and> current_url_index w = 0 \<longrightarrow>
          current_url_index (snd (rotate_url w)) = 0"
    using rotate_url_cursor(1) [OF assms] by simp
  from circ noerr single show ?thesis by blast
qed

text \<open>
  The registry of config.py (four hosts) with the cursor on the third host, and a
  registry of one host.
\<close>

definition config_world :: world where
  "config_world =
     \<lparr>base_urls = [''https://api.pocketfm.in'', ''https://api.pocketfm.com'',
                    ''https://api-cdn.pocketfm.com'', ''https://gateway.pocketfm.com''],
      current_url_index = 0, trace = [], files = (\<lambda>p. None), now = 0, last_update = 0\<rparr>"

theorem rotation_is_circular_witness:
  "base_urls (config_world\<lparr>current_url_index := 2\<rparr>) \<noteq> [] \<and>
   0 \<le> current_url_index (config_world\<lparr>current_url_index := 2\<rparr>) \<and>
   current_url_index (config_world\<lparr>current_url_index := 2\<rparr>) <
     int (length (base_urls (config_world\<lparr>current_url_index := 2\<rparr>))) \<and>
   fst (rotate_n 4 (config_world\<lparr>current_url_index := 2\<rparr>)) = Inr () \<and>
   current_url_index (snd (rotate_n 4 (config_world\<lparr>current_url_index := 2\<rparr>))) = 2 \<and>
   fst (get_base_url (snd (rotate_n 4 (config_world\<lparr>current_url_index := 2\<rparr>)))) =
     Inr ''https://api-cdn.pocketfm.com'' \<and>
   length (base_urls (config_world\<lparr>base_urls := [''https://api.pocketfm.in'']\<rparr>)) = 1 \<and>
   current_url_index (snd (rotate_url (config_world\<lparr>base_urls := [''https://api.pocketfm.in'']\<rparr>))) = 0"
proof -
  let ?w = "config_world\<lparr>current_url_index := 2\<rparr>"
  let ?s = "config_world\<lparr>base_urls := [''https://api.pocketfm.in'']\<rparr>"
  have ne: "base_urls ?w \<noteq> []" by (simp add: config_world_def)
  have len: "length (base_urls ?w) = 4" by (simp add: config_world_def)
  have cur: "current_url_index ?w = 2" by simp
  have g: "fst (get_base_url ?w) = Inr ''https://api-cdn.pocketfm.com''"
    by (simp add: config_world_def get_base_url_def py_index_def Let_def)
  have ne1: "base_urls ?s \<noteq> []" by simp
  have len1: "length (base_urls ?s) = 1" by simp
  have cur1: "current_url_index ?s = 0" by (simp add: config_world_def)
  have many: "fst (rotate_n 4 ?w) = Inr () \<and>
              current_url_index (snd (rotate_n 4 ?w)) = 2 \<and>
              fst (get_base_url (snd (rotate_n 4 ?w))) = Inr ''https://api-cdn.pocketfm.com''"
    using rotation_is_circular [OF ne] unfolding len cur g by simp
  have one: "current_url_index (snd (rotate_url ?s)) = 0"
    using rotation_is_circular [OF ne1] len1 cur1 by blast
  show ?thesis
    using ne len cur many len1 one by (simp only: ) simp
qed

section \<open>Observations on the trace, and a quiet environment\<close>

text \<open>The calls of the progress callback that a trace records, in order.\<close>

fun progress_calls :: "effect list \<Rightarrow> (real \<times> int \<times> int) list" where
  "progress_calls [] = []"
| "progress_calls (Progress p d t # es) = (p, d, t) # progress_calls es"
| "progress_calls (e # es) = progress_calls es"

text \<open>
  An environment in which every host answers 404, nothing fails on the local side, and
  \<open>str\<close> is given on strings. The scenarios below change one answer at a time.
\<close>

definition quiet_env :: env where
  "quiet_env =
     \<lparr>http = (\<lambda>h m u p. Responds 404 (Inl OtherError)),
      fetch = (\<lambda>h u. Fetched 404 NoContentLength []),
      bot_fault = (\<lambda>h c. None),
      mkdir_fault = (\<lambda>h p. None),
      open_fault = (\<lambda>h p. None),
      remove_fault = (\<lambda>h p. None),
      py_str = (\<lambda>j. case j of JStr s \<Rightarrow> s | _ \<Rightarrow> ''?'')\<rparr>"

lemma trace_emit [simp]: "trace (emit e w) = trace w @ [e]"
  by (simp add: emit_def)

lemma files_emit [simp]: "files (emit e w) = files w"
  by (simp add: emit_def)

lemma progress_calls_append:
  "progress_calls (xs @ ys) = progress_calls xs @ progress_calls ys"
  by (induction xs rule: progress_calls.induct) simp_all

section \<open>Properties of the transfer engine\<close>

text \<open>
  Claim C10. When the response to \<open>download_file\<close> has a status other than 200 and 206,
  the function returns False, and it neither opens nor writes the destination: the files
  are as they were, and the trace gains the start of the download, the request and the
  logged failure, with no \<open>OpenWrite\<close>.
\<close>

theorem bad_status_creates_no_file:
  assumes "fetch ev (trace w @ [Log (LogStartingDownload filepath)]) url = Fetched status cl chunks"
      and "status \<noteq> 200" and "status \<noteq> 206"
  shows "fst (download_file ev url filepath cb w) = False \<and>
         files (snd (download_file ev url filepath cb w)) = files w \<and>
         trace (snd (download_file ev url filepath cb w)) =
           trace w @ [Log (LogStartingDownload filepath), HttpGet url,
                      Log (LogDownloadHttpFailed status)]"
  using assms by (simp add: download_file_def Let_def)

theorem bad_status_creates_no_file_witness:
  "fetch quiet_env (trace config_world @ [Log (LogStartingDownload ''downloads/ep_1.mp3'')])
     (JStr ''http://cdn/ep_1'') = Fetched 404 NoContentLength [] \<and>
   fst (download_file quiet_env (JStr ''http://cdn/ep_1'') ''downloads/ep_1.mp3'' None config_world) = False \<and>
   files (snd (download_file quiet_env (JStr ''http://cdn/ep_1'') ''downloads/ep_1.mp3'' None config_world))
     ''downloads/ep_1.mp3'' = None"
proof -
  have f: "fetch quiet_env (trace config_world @ [Log (LogStartingDownload ''downloads/ep_1.mp3'')])
     (JStr ''http://cdn/ep_1'') = Fetched 404 NoContentLength []"
    by (simp add: quiet_env_def)
  have "files config_world ''downloads/ep_1.mp3'' = None" by (simp add: config_world_def)
  with f bad_status_creates_no_file [OF f, of None] show ?thesis by simp
qed

lemma write_chunks_no_total:
  "total_size \<le> 0 \<Longrightarrow>
   progress_calls (trace (snd (write_chunks path cb total_size downloaded chunks w))) =
     progress_calls (trace w)"
proof (induction chunks arbitrary: downloaded w)
  case Nil
  then show ?case by simp
next
  case (Cons c chunks)
  show ?case
  proof (cases c)
    case (Chunk t data)
    have tr: "trace (append_bytes path data (w\<lparr>now := t\<rparr>)) = trace w"
      by (simp add: append_bytes_def)
    have ih: "\<And>d. progress_calls (trace (snd (write_chunks path cb total_size d chunks
                 (append_bytes path data (w\<lparr>now := t\<rparr>))))) = progress_calls (trace w)"
      using Cons.IH [OF Cons.prems] tr by simp
    show ?thesis
      using Cons.prems ih unfolding Chunk by (cases cb) (simp_all add: Let_def)
  next
    case (StreamRaises e)
    then show ?thesis by simp
  qed
qed

text \<open>
  A download of two chunks whose response has no content-length header, with the
  dispatcher's callback: the download succeeds and writes the file.
\<close>

definition unsized_env :: env where
  "unsized_env = quiet_env\<lparr>fetch := (\<lambda>h u. Fetched 200 NoContentLength [Chunk 1000 ''abc'', Chunk 1003 ''de''])\<rparr>"

text \<open>
  Claim C5 as stated fails: with no content-length the total is 0, and the callback is
  not called at all, although one was passed and the download succeeded.
\<close>

theorem progress_without_total_counterexample:
  "fst (download_file unsized_env (JStr ''http://cdn/ep_1'') ''downloads/ep_1.mp3''
          (Some (download_progress unsized_env (JStr ''Test''))) config_world) = True \<and>
   files (snd (download_file unsized_env (JStr ''http://cdn/ep_1'') ''downloads/ep_1.mp3''
          (Some (download_progress unsized_env (JStr ''Test''))) config_world)) ''downloads/ep_1.mp3''
     = Some ''abcde'' \<and>
   progress_calls (trace (snd (download_file unsized_env (JStr ''http://cdn/ep_1'')
          ''downloads/ep_1.mp3'' (Some (download_progress unsized_env (JStr ''Test'')))
          config_world))) = []"
  by (simp add: download_file_def receive_body_def parse_content_length_def open_wb_def
        append_bytes_def unsized_env_def quiet_env_def config_world_def Let_def emit_def)

text \<open>
  Claim C5, amended. When the total size of a download is not positive (no content-length
  header, or one that reads as zero or less), \<open>download_file\<close> never calls the progress
  callback: the guard \<open>progress_callback and total_size > 0\<close> skips it for every chunk.
\<close>

theorem no_progress_without_total:
  assumes "fetch ev (trace w @ [Log (LogStartingDownload filepath)]) url = Fetched status cl chunks"
      and "parse_content_length cl = Inr total_size" and "total_size \<le> 0"
  shows "progress_calls (trace (snd (download_file ev url filepath cb w))) = progress_calls (trace w)"
proof (cases "status = 200 \<or> status = 206")
  case False
  with assms(1) show ?thesis
    by (simp add: download_file_def Let_def progress_calls_append)
next
  case True
  let ?w1 = "emit (HttpGet url) (emit (Log (LogStartingDownload filepath)) w)"
  have rb: "progress_calls (trace (snd (receive_body ev filepath cb cl chunks ?w1))) =
              progress_calls (trace w)"
  proof (cases "open_fault ev (trace ?w1) filepath")
    case None
    then have "receive_body ev filepath cb cl chunks ?w1 =
                 write_chunks filepath cb total_size 0 chunks
                   ((emit (OpenWrite filepath) ?w1)\<lparr>files := (files ?w1)(filepath \<mapsto> [])\<rparr>)"
      using assms(2) by (simp add: receive_body_def open_wb_def)
    then show ?thesis
      using write_chunks_no_total [OF assms(3)] by (simp add: progress_calls_append)
  next
    case (Some e)
    then show ?thesis
      using assms(2) by (simp add: receive_body_def open_wb_def progress_calls_append)
  qed
  obtain r w2 where r: "receive_body ev filepath cb cl chunks ?w1 = (r, w2)"
    by (cases "receive_body ev filepath cb cl chunks ?w1")
  with rb have "progress_calls (trace w2) = progress_calls (trace w)" by simp
  with True assms(1) r show ?thesis
    by (cases r) (simp_all add: download_file_def Let_def progress_calls_append)
qed

theorem no_progress_without_total_witness:
  "fetch unsized_env (trace config_world @ [Log (LogStartingDownload ''downloads/ep_1.mp3'')])
       (JStr ''http://cdn/ep_1'') =
     Fetched 200 NoContentLength [Chunk 1000 ''abc'', Chunk 1003 ''de''] \<and>
   parse_content_length NoContentLength = Inr 0 \<and> (0::int) \<le> 0 \<and>
   progress_calls (trace (snd (download_file unsized_env (JStr ''http://cdn/ep_1'')
          ''downloads/ep_1.mp3'' (Some (download_progress unsized_env (JStr ''Test'')))
          config_world))) = []"
proof -
  have f: "fetch unsized_env (trace config_world @ [Log (LogStartingDownload ''downloads/ep_1.mp3'')])
       (JStr ''http://cdn/ep_1'') =
     Fetched 200 NoContentLength [Chunk 1000 ''abc'', Chunk 1003 ''de'']"
    by (simp add: unsized_env_def)
  have p: "parse_content_length NoContentLength = Inr 0"
    by (simp add: parse_content_length_def)
  have t: "progress_calls (trace config_world) = []"
    by (simp add: config_world_def)
  from no_progress_without_total [OF f p, of "Some (download_progress unsized_env (JStr ''Test''))"] f p t
  show ?thesis by simp
qed

section \<open>Properties of the catalog resolver\<close>

lemma upt_0_3: "[0..<3] = [0, 1, 2]"
  by (simp add: upt_rec)

text \<open>
  The loop over the candidates either ends without a return, or returns the data that
  the body gave for one of the candidates.
\<close>

lemma try_endpoints_cases:
  "(\<exists>w'. try_endpoints body on_error cs w = (Inr None, w')) \<or>
   (\<exists>r w'. try_endpoints body on_error cs w = (Inr (Some r), w') \<and>
      (\<exists>c \<in> set cs. \<exists>w1 w2. body c w1 = (Inr (Some r), w2)))"
proof (induction cs arbitrary: w)
  case Nil
  then show ?case by simp
next
  case (Cons c cs)
  obtain res w1 where b: "body c w = (res, w1)" by (cases "body c w")
  show ?case
  proof (cases res)
    case (Inl e)
    with b Cons [of "emit (Log (on_error c e)) w1"] show ?thesis by auto
  next
    case (Inr o1)
    show ?thesis
    proof (cases o1)
      case None
      with b Inr Cons [of w1] show ?thesis by auto
    next
      case (Some r)
      with b Inr show ?thesis by auto
    qed
  qed
qed

lemma try_endpoints_exhausted:
  assumes "\<forall>c w r. fst (body c w) \<noteq> Inr (Some r)"
  shows "fst (try_endpoints body on_error cs w) = Inr None"
proof -
  have "\<not> (\<exists>r w'. try_endpoints body on_error cs w = (Inr (Some r), w') \<and>
      (\<exists>c \<in> set cs. \<exists>w1 w2. body c w1 = (Inr (Some r), w2)))"
    using assms by (metis fst_conv)
  with try_endpoints_cases [of body on_error cs w] show ?thesis by auto
qed

lemma search_body_data:
  assumes "search_body cfg ev c w = (Inr (Some r), w')"
  shows "truthy r \<and>
         (\<exists>response. fst (make_request cfg ev ''GET'' (fst c) (snd c) w) = Inr response \<and>
            truthy response \<and> extract_search_results response = Inr r)"
  using assms
  by (auto simp: search_body_def split: prod.splits sum.splits if_splits)

lemma details_body_data:
  assumes "details_body cfg ev c w = (Inr (Some r), w')"
  shows "truthy r \<and> fst (make_request cfg ev ''GET'' c (JDict []) w) = Inr r"
  using assms
  by (auto simp: details_body_def split: prod.splits sum.splits if_splits)

lemma episodes_body_data:
  assumes "episodes_body cfg ev limit c w = (Inr (Some r), w')"
  shows "truthy r \<and>
         (\<exists>response. fst (make_request cfg ev ''GET'' c (JDict [(''limit'', JInt limit)]) w) =
              Inr response \<and>
            truthy response \<and> extract_episodes response = Inr r)"
  using assms
  by (auto simp: episodes_body_def split: prod.splits sum.splits if_splits)

lemma stream_body_data:
  assumes "stream_body cfg ev quality c w = (Inr (Some r), w')"
  shows "truthy r \<and>
         (\<exists>response. fst (make_request cfg ev ''GET'' c (JDict [(''quality'', JStr quality)]) w) =
              Inr response \<and>
            truthy response \<and> extract_stream_url response = Inr r)"
  using assms
  by (auto simp: stream_body_def split: prod.splits sum.splits if_splits)

text \<open>
  An environment in which no request of \<open>_make_request\<close> is ever answered with a 200
  whose body parses: then \<open>_make_request\<close> returns None or raises, for every candidate.
\<close>

definition never_succeeds :: "env \<Rightarrow> bool" where
  "never_succeeds ev = (\<forall>h m u p j. http ev h m u p \<noteq> Responds 200 (Inr j))"

lemma attempt_request_no_success:
  assumes "never_succeeds ev"
  shows "fst (attempt_request cfg ev meth endpoint params attempt w) \<noteq> Inr (Some j)"
  using assms
  by (auto simp: attempt_request_def never_succeeds_def Let_def
        split: prod.splits sum.splits http_outcome.splits if_splits)

lemma make_request_attempt_no_success:
  assumes "never_succeeds ev"
  shows "fst (make_request_attempt cfg ev meth endpoint params attempt w) \<noteq> Inr (Some j)"
proof -
  obtain r w1 where ar: "attempt_request cfg ev meth endpoint params attempt w = (r, w1)"
    by (cases "attempt_request cfg ev meth endpoint params attempt w")
  with attempt_request_no_success [OF assms, of cfg meth endpoint params attempt w j]
  have "r \<noteq> Inr (Some j)" by simp
  with ar show ?thesis
    by (auto simp: make_request_attempt_def split: prod.splits sum.splits if_splits)
qed

lemma make_request_loop_no_success:
  assumes "never_succeeds ev"
  shows "fst (make_request_loop cfg ev meth endpoint params attempts w) = Inr j \<Longrightarrow> j = JNull"
proof (induction attempts arbitrary: w)
  case Nil
  then show ?case by simp
next
  case (Cons a attempts)
  obtain r w1 where m: "make_request_attempt cfg ev meth endpoint params a w = (r, w1)"
    by (cases "make_request_attempt cfg ev meth endpoint params a w")
  have ns: "\<And>j'. r \<noteq> Inr (Some j')"
    using make_request_attempt_no_success [OF assms, of cfg meth endpoint params a w] m by simp
  show ?case
  proof (cases r)
    case (Inl e)
    with m Cons.prems show ?thesis by simp
  next
    case (Inr o1)
    with ns have "o1 = None" by (cases o1) auto
    with Inr m Cons.prems Cons.IH [of w1] show ?thesis by simp
  qed
qed

lemma make_request_no_success:
  assumes "never_succeeds ev"
  shows "fst (make_request cfg ev meth endpoint params w) = Inr j \<Longrightarrow> j = JNull"
  unfolding make_request_def using make_request_loop_no_success [OF assms] .

lemma bodies_no_success:
  assumes "never_succeeds ev"
  shows "fst (search_body cfg ev sc w) \<noteq> Inr (Some r)"
    and "fst (details_body cfg ev c w) \<noteq> Inr (Some r)"
    and "fst (episodes_body cfg ev limit c w) \<noteq> Inr (Some r)"
    and "fst (stream_body cfg ev quality c w) \<noteq> Inr (Some r)"
proof -
  note mr = make_request_no_success [OF assms]
  show "fst (search_body cfg ev sc w) \<noteq> Inr (Some r)"
  proof
    assume "fst (search_body cfg ev sc w) = Inr (Some r)"
    then obtain w' where "search_body cfg ev sc w = (Inr (Some r), w')" by (metis prod.collapse)
    from search_body_data [OF this] mr show False by fastforce
  qed
  show "fst (details_body cfg ev c w) \<noteq> Inr (Some r)"
  proof
    assume "fst (details_body cfg ev c w) = Inr (Some r)"
    then obtain w' where "details_body cfg ev c w = (Inr (Some r), w')" by (metis prod.collapse)
    from details_body_data [OF this] mr show False by fastforce
  qed
  show "fst (episodes_body cfg ev limit c w) \<noteq> Inr (Some r)"
  proof
    assume "fst (episodes_body cfg ev limit c w) = Inr (Some r)"
    then obtain w' where "episodes_body cfg ev limit c w = (Inr (Some r), w')"
      by (metis prod.collapse)
    from episodes_body_data [OF this] mr show False by fastforce
  qed
  show "fst (stream_body cfg ev quality c w) \<noteq> Inr (Some r)"
  proof
    assume "fst (stream_body cfg ev quality c w) = Inr (Some r)"
    then obtain w' where "stream_body cfg ev quality c w = (Inr (Some r), w')"
      by (metis prod.collapse)
    from stream_body_data [OF this] mr show False by fastforce
  qed
qed

text \<open>
  What each operation returns: the unresolved value, or truthy data extracted from a
  truthy response that \<open>_make_request\<close> returned for one of its candidates; and the
  unresolved value whenever the loop over the candidates ends without a return, as it
  does when no response of any candidate holds usable data.
\<close>

lemma search_series_result:
  "(\<exists>r. fst (search_series cfg ev query limit w) = Inr r \<and>
      (r = JList [] \<or>
       (truthy r \<and>
        (\<exists>c \<in> set (search_endpoints query limit). \<exists>w1 response.
           fst (make_request cfg ev ''GET'' (fst c) (snd c) w1) = Inr response \<and>
           truthy response \<and> extract_search_results response = Inr r)))) \<and>
   (fst (try_endpoints (search_body cfg ev) (\<lambda>c e. LogSearchEndpointFailed (fst c) e)
           (search_endpoints query limit) w) = Inr None \<longrightarrow>
      fst (search_series cfg ev query limit w) = Inr (JList [])) \<and>
   ((\<forall>c \<in> set (search_endpoints query limit). \<forall>w1 response r.
        fst (make_request cfg ev ''GET'' (fst c) (snd c) w1) = Inr response \<and>
        truthy response \<and> extract_search_results response = Inr r \<longrightarrow> \<not> truthy r) \<longrightarrow>
      fst (search_series cfg ev query limit w) = Inr (JList []))"
proof -
  let ?t = "try_endpoints (search_body cfg ev) (\<lambda>c e. LogSearchEndpointFailed (fst c) e) (search_endpoints query limit) w"
  consider (none) w' where "?t = (Inr None, w')"
    | (some) r w' where "?t = (Inr (Some r), w')"
        and "\<exists>c \<in> set (search_endpoints query limit). \<exists>w1 w2. search_body cfg ev c w1 = (Inr (Some r), w2)"
    using try_endpoints_cases [of "search_body cfg ev" "\<lambda>c e. LogSearchEndpointFailed (fst c) e" "search_endpoints query limit" w]
    by blast
  then show ?thesis
  proof cases
    case none
    then show ?thesis by (simp add: search_series_def)
  next
    case some
    from some(2) obtain c w1 w2 where c: "c \<in> set (search_endpoints query limit)"
      and b: "search_body cfg ev c w1 = (Inr (Some r), w2)" by blast
    from search_body_data [OF b] have tr: "truthy r"
      and ex: "\<exists>response. fst (make_request cfg ev ''GET'' (fst c) (snd c) w1) = Inr response \<and>
                 truthy response \<and> extract_search_results response = Inr r"
      by auto
    have res: "fst (search_series cfg ev query limit w) = Inr r"
      using some(1) by (simp add: search_series_def)
    have one: "\<exists>r. fst (search_series cfg ev query limit w) = Inr r \<and>
      (r = JList [] \<or>
       (truthy r \<and>
        (\<exists>c \<in> set (search_endpoints query limit). \<exists>w1 response.
           fst (make_request cfg ev ''GET'' (fst c) (snd c) w1) = Inr response \<and>
           truthy response \<and> extract_search_results response = Inr r)))"
      using res tr ex c by blast
    have two: "fst ?t \<noteq> Inr None" using some(1) by simp
    have three: "\<not> (\<forall>c \<in> set (search_endpoints query limit). \<forall>w1 response r.
        fst (make_request cfg ev ''GET'' (fst c) (snd c) w1) = Inr response \<and>
        truthy response \<and> extract_search_results response = Inr r \<longrightarrow> \<not> truthy r)"
      using tr ex c by blast
    from one two three show ?thesis by blast
  qed
qed

lemma get_series_details_result:
  "(\<exists>r. fst (get_series_details cfg ev series_id w) = Inr r \<and>
      (r = JNull \<or>
       (truthy r \<and>
        (\<exists>c \<in> set (details_endpoints series_id). \<exists>w1 response.
           fst (make_request cfg ev ''GET'' c (JDict []) w1) = Inr response \<and>
           truthy response \<and> response = r)))) \<and>
   (fst (try_endpoints (details_body cfg ev) (\<lambda>c e. LogSeriesDetailsFailed e)
           (details_endpoints series_id) w) = Inr None \<longrightarrow>
      fst (get_series_details cfg ev series_id w) = Inr (JNull)) \<and>
   ((\<forall>c \<in> set (details_endpoints series_id). \<forall>w1 response r.
        fst (make_request cfg ev ''GET'' c (JDict []) w1) = Inr response \<and>
        truthy response \<and> response = r \<longrightarrow> \<not> truthy r) \<longrightarrow>
      fst (get_series_details cfg ev series_id w) = Inr (JNull))"
proof -
  let ?t = "try_endpoints (details_body cfg ev) (\<lambda>c e. LogSeriesDetailsFailed e) (details_endpoints series_id) w"
  consider (none) w' where "?t = (Inr None, w')"
    | (some) r w' where "?t = (Inr (Some r), w')"
        and "\<exists>c \<in> set (details_endpoints series_id). \<exists>w1 w2. details_body cfg ev c w1 = (Inr (Some r), w2)"
    using try_endpoints_cases [of "details_body cfg ev" "\<lambda>c e. LogSeriesDetailsFailed e" "details_endpoints series_id" w]
    by blast
  then show ?thesis
  proof cases
    case none
    then show ?thesis by (simp add: get_series_details_def)
  next
    case some
    from some(2) obtain c w1 w2 where c: "c \<in> set (details_endpoints series_id)"
      and b: "details_body cfg ev c w1 = (Inr (Some r), w2)" by blast
    from details_body_data [OF b] have tr: "truthy r"
      and ex: "\<exists>response. fst (make_request cfg ev ''GET'' c (JDict []) w1) = Inr response \<and>
                 truthy response \<and> response = r"
      by auto
    have res: "fst (get_series_details cfg ev series_id w) = Inr r"
      using some(1) by (simp add: get_series_details_def)
    have one: "\<exists>r. fst (get_series_details cfg ev series_id w) = Inr r \<and>
      (r = JNull \<or>
       (truthy r \<and>
        (\<exists>c \<in> set (details_endpoints series_id). \<exists>w1 response.
           fst (make_request cfg ev ''GET'' c (JDict []) w1) = Inr response \<and>
           truthy response \<and> response = r)))"
      using res tr ex c by blast
    have two: "fst ?t \<noteq> Inr None" using some(1) by simp
    have three: "\<not> (\<forall>c \<in> set (details_endpoints series_id). \<forall>w1 response r.
        fst (make_request cfg ev ''GET'' c (JDict []) w1) = Inr response \<and>
        truthy response \<and> response = r \<longrightarrow> \<not> truthy r)"
      using tr ex c by blast
    from one two three show ?thesis by blast
  qed
qed

lemma get_episodes_result:
  "(\<exists>r. fst (get_episodes cfg ev series_id limit w) = Inr r \<and>
      (r = JList [] \<or>
       (truthy r \<and>
        (\<exists>c \<in> set (episodes_endpoints series_id). \<exists>w1 response.
           fst (make_request cfg ev ''GET'' c (JDict [(''limit'', JInt limit)]) w1) = Inr response \<and>
           truthy response \<and> extract_episodes response = Inr r)))) \<and>
   (fst (try_endpoints (episodes_body cfg ev limit) (\<lambda>c e. LogEpisodesFailed e)
           (episodes_endpoints series_id) w) = Inr None \<longrightarrow>
      fst (get_episodes cfg ev series_id limit w) = Inr (JList [])) \<and>
   ((\<forall>c \<in> set (episodes_endpoints series_id). \<forall>w1 response r.
        fst (make_request cfg ev ''GET'' c (JDict [(''limit'', JInt limit)]) w1) = Inr response \<and>
        truthy response \<and> extract_episodes response = Inr r \<longrightarrow> \<not> truthy r) \<longrightarrow>
      fst (get_episodes cfg ev series_id limit w) = Inr (JList []))"
proof -
  let ?t = "try_endpoints (episodes_body cfg ev limit) (\<lambda>c e. LogEpisodesFailed e) (episodes_endpoints series_id) w"
  consider (none) w' where "?t = (Inr None, w')"
    | (some) r w' where "?t = (Inr (Some r), w')"
        and "\<exists>c \<in> set (episodes_endpoints series_id). \<exists>w1 w2. episodes_body cfg ev limit c w1 = (Inr (Some r), w2)"
    using try_endpoints_cases [of "episodes_body cfg ev limit" "\<lambda>c e. LogEpisodesFailed e" "episodes_endpoints series_id" w]
    by blast
  then show ?thesis
  proof cases
    case none
    then show ?thesis by (simp add: get_episodes_def)
  next
    case some
    from some(2) obtain c w1 w2 where c: "c \<in> set (episodes_endpoints series_id)"
      and b: "episodes_body cfg ev limit c w1 = (Inr (Some r), w2)" by blast
    from episodes_body_data [OF b] have tr: "truthy r"
      and ex: "\<exists>response. fst (make_request cfg ev ''GET'' c (JDict [(''limit'', JInt limit)]) w1) = Inr response \<and>
                 truthy response \<and> extract_episodes response = Inr r"
      by auto
    have res: "fst (get_episodes cfg ev series_id limit w) = Inr r"
      using some(1) by (simp add: get_episodes_def)
    have one: "\<exists>r. fst (get_episodes cfg ev series_id limit w) = Inr r \<and>
      (r = JList [] \<or>
       (truthy r \<and>
        (\<exists>c \<in> set (episodes_endpoints series_id). \<exists>w1 response.
           fst (make_request cfg ev ''GET'' c (JDict [(''limit'', JInt limit)]) w1) = Inr response \<and>
           truthy response \<and> extract_episodes response = Inr r)))"
      using res tr ex c by blast
    have two: "fst ?t \<noteq> Inr None" using some(1) by simp
    have three: "\<not> (\<forall>c \<in> set (episodes_endpoints series_id). \<forall>w1 response r.
        fst (make_request cfg ev ''GET'' c (JDict [(''limit'', JInt limit)]) w1) = Inr response \<and>
        truthy response \<and> extract_episodes response = Inr r \<longrightarrow> \<not> truthy r)"
      using tr ex c by blast
    from one two three show ?thesis by blast
  qed
qed

lemma get_stream_url_result:
  "(\<exists>r. fst (get_stream_url cfg ev episode_id quality w) = Inr r \<and>
      (r = JNull \<or>
       (truthy r \<and>
        (\<exists>c \<in> set (stream_endpoints ev episode_id). \<exists>w1 response.
           fst (make_request cfg ev ''GET'' c (JDict [(''quality'', JStr quality)]) w1) = Inr response \<and>
           truthy response \<and> extract_stream_url response = Inr r)))) \<and>
   (fst (try_endpoints (stream_body cfg ev quality) (\<lambda>c e. LogStreamUrlFailed e)
           (stream_endpoints ev episode_id) w) = Inr None \<longrightarrow>
      fst (get_stream_url cfg ev episode_id quality w) = Inr (JNull)) \<and>
   ((\<forall>c \<in> set (stream_endpoints ev episode_id). \<forall>w1 response r.
        fst (make_request cfg ev ''GET'' c (JDict [(''quality'', JStr quality)]) w1) = Inr response \<and>
        truthy response \<and> extract_stream_url response = Inr r \<longrightarrow> \<not> truthy r) \<longrightarrow>
      fst (get_stream_url cfg ev episode_id quality w) = Inr (JNull))"
proof -
  let ?t = "try_endpoints (stream_body cfg ev quality) (\<lambda>c e. LogStreamUrlFailed e) (stream_endpoints ev episode_id) w"
  consider (none) w' where "?t = (Inr None, w')"
    | (some) r w' where "?t = (Inr (Some r), w')"
        and "\<exists>c \<in> set (stream_endpoints ev episode_id). \<exists>w1 w2. stream_body cfg ev quality c w1 = (Inr (Some r), w2)"
    using try_endpoints_cases [of "stream_body cfg ev quality" "\<lambda>c e. LogStreamUrlFailed e" "stream_endpoints ev episode_id" w]
    by blast
  then show ?thesis
  proof cases
    case none
    then show ?thesis by (simp add: get_stream_url_def)
  next
    case some
    from some(2) obtain c w1 w2 where c: "c \<in> set (stream_endpoints ev episode_id)"
      and b: "stream_body cfg ev quality c w1 = (Inr (Some r), w2)" by blast
    from stream_body_data [OF b] have tr: "truthy r"
      and ex: "\<exists>response. fst (make_request cfg ev ''GET'' c (JDict [(''quality'', JStr quality)]) w1) = Inr response \<and>
                 truthy response \<and> extract_stream_url response = Inr r"
      by auto
    have res: "fst (get_stream_url cfg ev episode_id quality w) = Inr r"
      using some(1) by (simp add: get_stream_url_def)
    have one: "\<exists>r. fst (get_stream_url cfg ev episode_id quality w) = Inr r \<and>
      (r = JNull \<or>
       (truthy r \<and>
        (\<exists>c \<in> set (stream_endpoints ev episode_id). \<exists>w1 response.
           fst (make_request cfg ev ''GET'' c (JDict [(''quality'', JStr quality)]) w1) = Inr response \<and>
           truthy response \<and> extract_stream_url response = Inr r)))"
      using res tr ex c by blast
    have two: "fst ?t \<noteq> Inr None" using some(1) by simp
    have three: "\<not> (\<forall>c \<in> set (stream_endpoints ev episode_id). \<forall>w1 response r.
        fst (make_request cfg ev ''GET'' c (JDict [(''quality'', JStr quality)]) w1) = Inr response \<and>
        truthy response \<and> extract_stream_url response = Inr r \<longrightarrow> \<not> truthy r)"
      using tr ex c by blast
    from one two three show ?thesis by blast
  qed
qed

text \<open>
  \<open>_make_request\<close> itself can raise: on an empty registry the rotation inside its
  \<open>except Exception\<close> handler divides by zero. The operations catch that too.
\<close>

lemma make_request_raises_on_empty_registry:
  "fst (make_request default_config quiet_env ''GET'' ''/search'' (JDict [])
          (config_world\<lparr>base_urls := []\<rparr>)) = Inl ZeroDivisionError"
  by (simp add: make_request_def
        make_request_attempt_def attempt_request_def get_base_url_def py_index_def rotate_url_def
        default_config_def quiet_env_def
        config_world_def Let_def emit_def upt_0_3)

lemma search_on_empty_registry:
  "fst (search_series default_config quiet_env ''q'' 10 (config_world\<lparr>base_urls := []\<rparr>)) = Inr (JList [])"
  by (simp add: search_series_def search_endpoints_def search_body_def make_request_def
        make_request_attempt_def attempt_request_def get_base_url_def py_index_def rotate_url_def
        extract_search_results_def default_config_def quiet_env_def
        config_world_def Let_def emit_def upt_0_3)

text \<open>
  Claim C2. Each of the four resolver operations returns a value and never raises,
  whatever the hosts answer and whatever the registry holds. The value is the explicit
  unresolved result (the empty list for search and list-episodes, None for get-details
  and resolve-stream-location) or usable data: a truthy value extracted from a truthy
  response of one of the operation's candidates, never anything else. When all
  candidates are exhausted (the loop over them ends without a return), the operation
  returns the unresolved result; so it does when no response of any candidate holds
  usable data, and in particular when no request is ever answered with a 200 whose
  body parses.
\<close>

theorem resolver_never_raises:
  "(\<exists>r. fst (search_series cfg ev query limit w) = Inr r \<and>
      (r = JList [] \<or>
       (truthy r \<and>
        (\<exists>c \<in> set (search_endpoints query limit). \<exists>w1 response.
           fst (make_request cfg ev ''GET'' (fst c) (snd c) w1) = Inr response \<and>
           truthy response \<and> extract_search_results response = Inr r)))) \<and>
   (fst (try_endpoints (search_body cfg ev) (\<lambda>c e. LogSearchEndpointFailed (fst c) e)
           (search_endpoints query limit) w) = Inr None \<longrightarrow>
      fst (search_series cfg ev query limit w) = Inr (JList [])) \<and>
   ((\<forall>c \<in> set (search_endpoints query limit). \<forall>w1 response r.
        fst (make_request cfg ev ''GET'' (fst c) (snd c) w1) = Inr response \<and>
        truthy response \<and> extract_search_results response = Inr r \<longrightarrow> \<not> truthy r) \<longrightarrow>
      fst (search_series cfg ev query limit w) = Inr (JList [])) \<and>
   (\<exists>r. fst (get_series_details cfg ev series_id w) = Inr r \<and>
      (r = JNull \<or>
       (truthy r \<and>
        (\<exists>c \<in> set (details_endpoints series_id). \<exists>w1 response.
           fst (make_request cfg ev ''GET'' c (JDict []) w1) = Inr response \<and>
           truthy response \<and> response = r)))) \<and>
   (fst (try_endpoints (details_body cfg ev) (\<lambda>c e. LogSeriesDetailsFailed e)
           (details_endpoints series_id) w) = Inr None \<longrightarrow>
      fst (get_series_details cfg ev series_id w) = Inr (JNull)) \<and>
   ((\<forall>c \<in> set (details_endpoints series_id). \<forall>w1 response r.
        fst (make_request cfg ev ''GET'' c (JDict []) w1) = Inr response \<and>
        truthy response \<and> response = r \<longrightarrow> \<not> truthy r) \<longrightarrow>
      fst (get_series_details cfg ev series_id w) = Inr (JNull)) \<and>
   (\<exists>r. fst (get_episodes cfg ev series_id limit w) = Inr r \<and>
      (r = JList [] \<or>
       (truthy r \<and>
        (\<exists>c \<in> set (episodes_endpoints series_id). \<exists>w1 response.
           fst (make_request cfg ev ''GET'' c (JDict [(''limit'', JInt limit)]) w1) = Inr response \<and>
           truthy response \<and> extract_episodes response = Inr r)))) \<and>
   (fst (try_endpoints (episodes_body cfg ev limit) (\<lambda>c e. LogEpisodesFailed e)
           (episodes_endpoints series_id) w) = Inr None \<longrightarrow>
      fst (get_episodes cfg ev series_id limit w) = Inr (JList [])) \<and>
   ((\<forall>c \<in> set (episodes_endpoints series_id). \<forall>w1 response r.
        fst (make_request cfg ev ''GET'' c (JDict [(''limit'', JInt limit)]) w1) = Inr response \<and>
        truthy response \<and> extract_episodes response = Inr r \<longrightarrow> \<not> truthy r) \<longrightarrow>
      fst (get_episodes cfg ev series_id limit w) = Inr (JList [])) \<and>
   (\<exists>r. fst (get_stream_url cfg ev episode_id quality w) = Inr r \<and>
      (r = JNull \<or>
       (truthy r \<and>
        (\<exists>c \<in> set (stream_endpoints ev episode_id). \<exists>w1 response.
           fst (make_request cfg ev ''GET'' c (JDict [(''quality'', JStr quality)]) w1) = Inr response \<and>
           truthy response \<and> extract_stream_url response = Inr r)))) \<and>
   (fst (try_endpoints (stream_body cfg ev quality) (\<lambda>c e. LogStreamUrlFailed e)
           (stream_endpoints ev episode_id) w) = Inr None \<longrightarrow>
      fst (get_stream_url cfg ev episode_id quality w) = Inr (JNull)) \<and>
   ((\<forall>c \<in> set (stream_endpoints ev episode_id). \<forall>w1 response r.
        fst (make_request cfg ev ''GET'' c (JDict [(''quality'', JStr quality)]) w1) = Inr response \<and>
        truthy response \<and> extract_stream_url response = Inr r \<longrightarrow> \<not> truthy r) \<longrightarrow>
      fst (get_stream_url cfg ev episode_id quality w) = Inr (JNull)) \<and>
   (never_succeeds ev \<longrightarrow>
      fst (search_series cfg ev query limit w) = Inr (JList []) \<and>
      fst (get_series_details cfg ev series_id w) = Inr JNull \<and>
      fst (get_episodes cfg ev series_id limit w) = Inr (JList []) \<and>
      fst (get_stream_url cfg ev episode_id quality w) = Inr JNull)"
proof -
  have ns: "never_succeeds ev \<longrightarrow>
      fst (search_series cfg ev query limit w) = Inr (JList []) \<and>
      fst (get_series_details cfg ev series_id w) = Inr JNull \<and>
      fst (get_episodes cfg ev series_id limit w) = Inr (JList []) \<and>
      fst (get_stream_url cfg ev episode_id quality w) = Inr JNull"
  proof
    assume n: "never_succeeds ev"
    have a: "fst (try_endpoints (search_body cfg ev) (\<lambda>c e. LogSearchEndpointFailed (fst c) e)
               (search_endpoints query limit) w) = Inr None"
      using bodies_no_success(1) [OF n] by (simp add: try_endpoints_exhausted)
    have b: "fst (try_endpoints (details_body cfg ev) (\<lambda>c e. LogSeriesDetailsFailed e)
               (details_endpoints series_id) w) = Inr None"
      using bodies_no_success(2) [OF n] by (simp add: try_endpoints_exhausted)
    have c: "fst (try_endpoints (episodes_body cfg ev limit) (\<lambda>c e. LogEpisodesFailed e)
               (episodes_endpoints series_id) w) = Inr None"
      using bodies_no_success(3) [OF n] by (simp add: try_endpoints_exhausted)
    have d: "fst (try_endpoints (stream_body cfg ev quality) (\<lambda>c e. LogStreamUrlFailed e)
               (stream_endpoints ev episode_id) w) = Inr None"
      using bodies_no_success(4) [OF n] by (simp add: try_endpoints_exhausted)
    from a b c d
    show "fst (search_series cfg ev query limit w) = Inr (JList []) \<and>
      fst (get_series_details cfg ev series_id w) = Inr JNull \<and>
      fst (get_episodes cfg ev series_id limit w) = Inr (JList []) \<and>
      fst (get_stream_url cfg ev episode_id quality w) = Inr JNull"
      using search_series_result [of cfg ev query limit w]
        get_series_details_result [of cfg ev series_id w]
        get_episodes_result [of cfg ev series_id limit w]
        get_stream_url_result [of cfg ev episode_id quality w]
      by blast
  qed
  from search_series_result [of cfg ev query limit w]
    get_series_details_result [of cfg ev series_id w]
    get_episodes_result [of cfg ev series_id limit w]
    get_stream_url_result [of cfg ev episode_id quality w] ns
  show ?thesis by blast
qed

text \<open>Every host answers 404 to every request: all four operations are unresolved.\<close>

theorem resolver_never_raises_witness:
  "never_succeeds quiet_env \<and>
   fst (try_endpoints (search_body default_config quiet_env)
          (\<lambda>c e. LogSearchEndpointFailed (fst c) e) (search_endpoints ''q'' 10) config_world) =
     Inr None \<and>
   fst (search_series default_config quiet_env ''q'' 10 config_world) = Inr (JList []) \<and>
   fst (get_series_details default_config quiet_env ''s1'' config_world) = Inr JNull \<and>
   fst (get_episodes default_config quiet_env ''s1'' 10 config_world) = Inr (JList []) \<and>
   fst (get_stream_url default_config quiet_env (JStr ''ep_1'') ''high'' config_world) = Inr JNull"
proof -
  have ns: "never_succeeds quiet_env"
    by (simp add: never_succeeds_def quiet_env_def)
  have ex: "fst (try_endpoints (search_body default_config quiet_env)
          (\<lambda>c e. LogSearchEndpointFailed (fst c) e) (search_endpoints ''q'' 10) config_world) =
     Inr None"
    using bodies_no_success(1) [OF ns] by (simp add: try_endpoints_exhausted)
  note T = resolver_never_raises [where cfg = default_config and ev = quiet_env
      and query = "''q''" and limit = 10 and w = config_world and series_id = "''s1''"
      and episode_id = "JStr ''ep_1''" and quality = "''high''"]
  from T ns have a: "fst (search_series default_config quiet_env ''q'' 10 config_world) = Inr (JList [])"
    by blast
  from T ns have b: "fst (get_series_details default_config quiet_env ''s1'' config_world) = Inr JNull"
    by blast
  from T ns have c: "fst (get_episodes default_config quiet_env ''s1'' 10 config_world) = Inr (JList [])"
    by blast
  from T ns have d: "fst (get_stream_url default_config quiet_env (JStr ''ep_1'') ''high'' config_world) = Inr JNull"
    by blast
  from ns ex a b c d show ?thesis by blast
qed

text \<open>
  Every host answers every search request with \<open>{"data": [{"id": "s1"}]}\<close>: a payload
  that only the third rule, \<open>response.get("data", [])\<close>, matches.
\<close>

definition data_list_env :: env where
  "data_list_env =
     quiet_env\<lparr>http := (\<lambda>h m u p.
        Responds 200 (Inr (JDict [(''data'', JList [JDict [(''id'', JStr ''s1'')]])])))\<rparr>"

text \<open>
  Claim C9 at that payload. The second rule, \<open>response.get("data", {}).get("series", [])\<close>,
  calls \<open>get\<close> on the list and raises AttributeError before the third rule is tried; the
  handler of \<open>search_series\<close> takes it for a failed endpoint, and after the last candidate
  the search returns the empty list although the payload held a result.
\<close>

theorem search_third_rule_lost:
  "extract_search_results (JDict [(''data'', JList [JDict [(''id'', JStr ''s1'')]])]) =
     Inl AttributeError \<and>
   fst (search_series default_config data_list_env ''q'' 10 config_world) = Inr (JList [])"
  by (simp add: search_series_def search_endpoints_def search_body_def make_request_def
        make_request_attempt_def attempt_request_def get_base_url_def py_index_def
        extract_search_results_def default_config_def data_list_env_def quiet_env_def
        config_world_def Let_def emit_def upt_0_3)

text \<open>
  \<open>get_episodes\<close> has no chained \<open>get\<close>: there a payload that only the third rule
  (\<open>items\<close>) matches is returned.
\<close>

definition items_env :: env where
  "items_env =
     quiet_env\<lparr>http := (\<lambda>h m u p.
        Responds 200 (Inr (JDict [(''items'', JList [JDict [(''id'', JStr ''e1'')]])])))\<rparr>"

lemma episodes_third_rule_kept:
  "fst (get_episodes default_config items_env ''s1'' 100 config_world) =
     Inr (JList [JDict [(''id'', JStr ''e1'')]])"
  by (simp add: get_episodes_def episodes_endpoints_def episodes_body_def make_request_def
        make_request_attempt_def attempt_request_def get_base_url_def py_index_def
        extract_episodes_def default_config_def items_env_def quiet_env_def
        config_world_def Let_def emit_def upt_0_3)

section \<open>Properties of the resilient client\<close>

text \<open>The durations of the sleeps that a trace records, in order.\<close>

fun sleeps :: "effect list \<Rightarrow> int list" where
  "sleeps [] = []"
| "sleeps (Sleep n # es) = n # sleeps es"
| "sleeps (e # es) = sleeps es"

lemma sleeps_append: "sleeps (xs @ ys) = sleeps xs @ sleeps ys"
  by (induction xs rule: sleeps.induct) simp_all

lemma get_base_url_keeps:
  assumes "get_base_url w = (r, w1)"
  shows "trace w1 = trace w" and "base_urls w1 = base_urls w" and "files w1 = files w"
  using assms by (auto simp: get_base_url_def Let_def split: if_splits)

lemma rotate_url_effect:
  assumes "base_urls w \<noteq> []"
  shows "\<exists>u. rotate_url w =
           (Inr (), emit (Log (LogRotated u))
              (w\<lparr>current_url_index := (current_url_index w + 1) mod int (length (base_urls w))\<rparr>))"
  using rotate_url_nonempty [OF assms] by blast

text \<open>Every host answers HTTP 500.\<close>

definition error500_env :: env where
  "error500_env = quiet_env\<lparr>http := (\<lambda>h m u p. Responds 500 (Inl OtherError))\<rparr>"

text \<open>
  Claim C4 as stated fails for an error that is neither 404, 429, 503 nor an exception:
  on HTTP 500 the attempt ends with the cursor still on the first host and nothing else
  done, where a rotation would have moved the cursor to the second host.
\<close>

theorem other_status_counterexample:
  "make_request_attempt default_config error500_env ''GET'' ''/api/v1/search'' (JDict []) 0 config_world =
     (Inr None,
      config_world\<lparr>trace :=
        [Log (LogRequest 1 ''https://api.pocketfm.in/api/v1/search''),
         HttpRequest ''GET'' ''https://api.pocketfm.in/api/v1/search'' (JDict [])]\<rparr>) \<and>
   current_url_index (snd (make_request_attempt default_config error500_env ''GET''
      ''/api/v1/search'' (JDict []) 0 config_world)) = 0 \<and>
   current_url_index (snd (rotate_url config_world)) = 1"
  by (simp add: make_request_attempt_def attempt_request_def get_base_url_def py_index_def
        rotate_url_def error500_env_def quiet_env_def config_world_def default_config_def
        Let_def emit_def)

text \<open>
  Claim C4, amended. One attempt of \<open>_make_request\<close> on a non-empty registry, with the
  host at the cursor answering \<open>out\<close>: HTTP 200 with a body that parses returns the body;
  HTTP 404 rotates the endpoint and does not sleep; HTTP 429 or 503 sleeps
  \<open>RETRY_DELAY * (attempt + 1)\<close> and does not rotate; a timeout sleeps \<open>RETRY_DELAY\<close> and
  does not rotate; any other exception (of the transport or of parsing the body of a
  200) rotates and does not sleep; any other HTTP status neither sleeps nor rotates. In
  every case but the first the loop goes on to the next attempt.
\<close>

theorem attempt_dispatch:
  assumes ne: "base_urls w \<noteq> []"
      and gb: "get_base_url w = (Inr base_url, w1)"
      and out: "http ev (trace w1 @ [Log (LogRequest (attempt + 1) (base_url @ endpoint))])
                  meth (base_url @ endpoint) params = out"
      and res: "make_request_attempt cfg ev meth endpoint params attempt w = (r, w')"
  shows "(\<forall>j. out = Responds 200 (Inr j) \<longrightarrow>
            r = Inr (Some j) \<and> current_url_index w' = current_url_index w1 \<and>
            sleeps (trace w') = sleeps (trace w)) \<and>
         (\<forall>body. out = Responds 404 body \<longrightarrow>
            r = Inr None \<and>
            current_url_index w' = (current_url_index w1 + 1) mod int (length (base_urls w)) \<and>
            sleeps (trace w') = sleeps (trace w)) \<and>
         (\<forall>body. out = Responds 429 body \<or> out = Responds 503 body \<longrightarrow>
            r = Inr None \<and> current_url_index w' = current_url_index w1 \<and>
            sleeps (trace w') = sleeps (trace w) @ [RETRY_DELAY cfg * (int attempt + 1)]) \<and>
         (out = RequestRaises TimeoutError \<longrightarrow>
            r = Inr None \<and> current_url_index w' = current_url_index w1 \<and>
            sleeps (trace w') = sleeps (trace w) @ [RETRY_DELAY cfg]) \<and>
         (\<forall>e. e \<noteq> TimeoutError \<and> (out = RequestRaises e \<or> out = Responds 200 (Inl e)) \<longrightarrow>
            r = Inr None \<and>
            current_url_index w' = (current_url_index w1 + 1) mod int (length (base_urls w)) \<and>
            sleeps (trace w') = sleeps (trace w)) \<and>
         (\<forall>status body. out = Responds status body \<and> status \<notin> {200, 404, 429, 503} \<longrightarrow>
            r = Inr None \<and> current_url_index w' = current_url_index w1 \<and>
            sleeps (trace w') = sleeps (trace w))"
proof -
  let ?url = "base_url @ endpoint"
  let ?w2 = "emit (Log (LogRequest (attempt + 1) ?url)) w1"
  let ?w3 = "emit (HttpRequest meth ?url params) ?w2"
  note k = get_base_url_keeps [OF gb]
  have ne3: "\<And>l. base_urls (emit (Log l) ?w3) \<noteq> []"
    using ne k by (simp add: emit_def)
  have rot: "\<And>l. \<exists>u. rotate_url (emit (Log l) ?w3) =
      (Inr (), emit (Log (LogRotated u)) ((emit (Log l) ?w3)
          \<lparr>current_url_index := (current_url_index w1 + 1) mod int (length (base_urls w))\<rparr>))"
    using rotate_url_effect [OF ne3] k by (simp add: emit_def)
  have s3: "sleeps (trace ?w3) = sleeps (trace w)"
    using k by (simp add: sleeps_append)
  have c3: "current_url_index ?w3 = current_url_index w1"
    by (simp add: emit_def)
  have ar: "attempt_request cfg ev meth endpoint params attempt w =
      (case out of
         RequestRaises e \<Rightarrow> (Inl e, ?w3)
       | Responds status body \<Rightarrow>
           if status = 200 then
             (case body of Inl e \<Rightarrow> (Inl e, ?w3) | Inr j \<Rightarrow> (Inr (Some j), ?w3))
           else if status = 404 then
             (case rotate_url (emit (Log (Log404 endpoint)) ?w3) of
                (Inl e, w4) \<Rightarrow> (Inl e, w4)
              | (Inr u, w4) \<Rightarrow> (Inr None, w4))
           else if status = 429 \<or> status = 503 then
             (Inr None, emit (Sleep (RETRY_DELAY cfg * (int attempt + 1))) ?w3)
           else (Inr None, ?w3))"
    using gb out by (auto simp: attempt_request_def Let_def split: http_outcome.splits sum.splits)
  have A: "\<forall>j. out = Responds 200 (Inr j) \<longrightarrow>
            r = Inr (Some j) \<and> current_url_index w' = current_url_index w1 \<and>
            sleeps (trace w') = sleeps (trace w)"
    using res s3 c3 by (auto simp: make_request_attempt_def ar)
  have B: "\<forall>body. out = Responds 404 body \<longrightarrow>
            r = Inr None \<and>
            current_url_index w' = (current_url_index w1 + 1) mod int (length (base_urls w)) \<and>
            sleeps (trace w') = sleeps (trace w)"
  proof (intro allI impI)
    fix body assume o: "out = Responds 404 body"
    obtain u where "rotate_url (emit (Log (Log404 endpoint)) ?w3) =
      (Inr (), emit (Log (LogRotated u)) ((emit (Log (Log404 endpoint)) ?w3)
          \<lparr>current_url_index := (current_url_index w1 + 1) mod int (length (base_urls w))\<rparr>))"
      using rot by blast
    with res o show "r = Inr None \<and>
            current_url_index w' = (current_url_index w1 + 1) mod int (length (base_urls w)) \<and>
            sleeps (trace w') = sleeps (trace w)"
      using k by (auto simp: make_request_attempt_def ar emit_def sleeps_append)
  qed
  have C: "\<forall>body. out = Responds 429 body \<or> out = Responds 503 body \<longrightarrow>
            r = Inr None \<and> current_url_index w' = current_url_index w1 \<and>
            sleeps (trace w') = sleeps (trace w) @ [RETRY_DELAY cfg * (int attempt + 1)]"
    using res s3 c3 by (auto simp: make_request_attempt_def ar emit_def sleeps_append)
  have D: "out = RequestRaises TimeoutError \<longrightarrow>
            r = Inr None \<and> current_url_index w' = current_url_index w1 \<and>
            sleeps (trace w') = sleeps (trace w) @ [RETRY_DELAY cfg]"
    using res s3 c3 by (auto simp: make_request_attempt_def ar emit_def sleeps_append)
  have E: "\<forall>e. e \<noteq> TimeoutError \<and> (out = RequestRaises e \<or> out = Responds 200 (Inl e)) \<longrightarrow>
            r = Inr None \<and>
            current_url_index w' = (current_url_index w1 + 1) mod int (length (base_urls w)) \<and>
            sleeps (trace w') = sleeps (trace w)"
  proof (intro allI impI)
    fix e assume o: "e \<noteq> TimeoutError \<and> (out = RequestRaises e \<or> out = Responds 200 (Inl e))"
    obtain u where "rotate_url (emit (Log (LogRequestError e)) ?w3) =
      (Inr (), emit (Log (LogRotated u)) ((emit (Log (LogRequestError e)) ?w3)
          \<lparr>current_url_index := (current_url_index w1 + 1) mod int (length (base_urls w))\<rparr>))"
      using rot by blast
    with res o show "r = Inr None \<and>
            current_url_index w' = (current_url_index w1 + 1) mod int (length (base_urls w)) \<and>
            sleeps (trace w') = sleeps (trace w)"
      using k by (auto simp: make_request_attempt_def ar emit_def sleeps_append)
  qed
  have F: "\<forall>status body. out = Responds status body \<and> status \<notin> {200, 404, 429, 503} \<longrightarrow>
            r = Inr None \<and> current_url_index w' = current_url_index w1 \<and>
            sleeps (trace w') = sleeps (trace w)"
    using res s3 c3 by (auto simp: make_request_attempt_def ar)
  from A B C D E F show ?thesis by blast
qed

text \<open>Every host answers HTTP 429; every request times out.\<close>

definition busy_env :: env where
  "busy_env = quiet_env\<lparr>http := (\<lambda>h m u p. Responds 429 (Inl OtherError))\<rparr>"

definition slow_env :: env where
  "slow_env = quiet_env\<lparr>http := (\<lambda>h m u p. RequestRaises TimeoutError)\<rparr>"

theorem attempt_dispatch_witness:
  "base_urls config_world \<noteq> [] \<and>
   get_base_url config_world = (Inr ''https://api.pocketfm.in'', config_world) \<and>
   fst (make_request_attempt default_config quiet_env ''GET'' ''/search'' (JDict []) 1 config_world)
     = Inr None \<and>
   current_url_index (snd (make_request_attempt default_config quiet_env ''GET'' ''/search''
     (JDict []) 1 config_world)) = 1 \<and>
   sleeps (trace (snd (make_request_attempt default_config quiet_env ''GET'' ''/search''
     (JDict []) 1 config_world))) = [] \<and>
   current_url_index (snd (make_request_attempt default_config busy_env ''GET'' ''/search''
     (JDict []) 1 config_world)) = 0 \<and>
   sleeps (trace (snd (make_request_attempt default_config busy_env ''GET'' ''/search''
     (JDict []) 1 config_world))) = [4] \<and>
   current_url_index (snd (make_request_attempt default_config slow_env ''GET'' ''/search''
     (JDict []) 1 config_world)) = 0 \<and>
   sleeps (trace (snd (make_request_attempt default_config slow_env ''GET'' ''/search''
     (JDict []) 1 config_world))) = [2] \<and>
   current_url_index (snd (make_request_attempt default_config error500_env ''GET'' ''/search''
     (JDict []) 1 config_world)) = 0 \<and>
   sleeps (trace (snd (make_request_attempt default_config error500_env ''GET'' ''/search''
     (JDict []) 1 config_world))) = []"
proof -
  have ne: "base_urls config_world \<noteq> []" by (simp add: config_world_def)
  have gb: "get_base_url config_world = (Inr ''https://api.pocketfm.in'', config_world)"
    by (simp add: get_base_url_def py_index_def config_world_def Let_def)
  have len: "int (length (base_urls config_world)) = 4" by (simp add: config_world_def)
  have cur: "current_url_index config_world = 0" by (simp add: config_world_def)
  have tr: "sleeps (trace config_world) = []" by (simp add: config_world_def)
  have d: "RETRY_DELAY default_config = 2" by (simp add: default_config_def)
  have q: "\<And>h m u p. http quiet_env h m u p = Responds 404 (Inl OtherError)"
    by (simp add: quiet_env_def)
  have b: "\<And>h m u p. http busy_env h m u p = Responds 429 (Inl OtherError)"
    by (simp add: busy_env_def)
  have t: "\<And>h m u p. http slow_env h m u p = RequestRaises TimeoutError"
    by (simp add: slow_env_def)
  have e: "\<And>h m u p. http error500_env h m u p = Responds 500 (Inl OtherError)"
    by (simp add: error500_env_def)
  note T = attempt_dispatch [OF ne gb refl surjective_pairing, where cfg = default_config
             and meth = "''GET''" and endpoint = "''/search''" and params = "JDict []"
             and attempt = 1]
  have Q: "fst (make_request_attempt default_config quiet_env ''GET'' ''/search'' (JDict []) 1 config_world)
             = Inr None \<and>
           current_url_index (snd (make_request_attempt default_config quiet_env ''GET'' ''/search''
             (JDict []) 1 config_world)) = 1 \<and>
           sleeps (trace (snd (make_request_attempt default_config quiet_env ''GET'' ''/search''
             (JDict []) 1 config_world))) = []"
    using T [where ev = quiet_env] unfolding q len cur tr by simp
  have B: "current_url_index (snd (make_request_attempt default_config busy_env ''GET'' ''/search''
             (JDict []) 1 config_world)) = 0 \<and>
           sleeps (trace (snd (make_request_attempt default_config busy_env ''GET'' ''/search''
             (JDict []) 1 config_world))) = [4]"
    using T [where ev = busy_env] unfolding b len cur tr d by simp
  have S: "current_url_index (snd (make_request_attempt default_config slow_env ''GET'' ''/search''
             (JDict []) 1 config_world)) = 0 \<and>
           sleeps (trace (snd (make_request_attempt default_config slow_env ''GET'' ''/search''
             (JDict []) 1 config_world))) = [2]"
    using T [where ev = slow_env] unfolding t len cur tr d by simp
  have E: "current_url_index (snd (make_request_attempt default_config error500_env ''GET'' ''/search''
             (JDict []) 1 config_world)) = 0 \<and>
           sleeps (trace (snd (make_request_attempt default_config error500_env ''GET'' ''/search''
             (JDict []) 1 config_world))) = []"
    using T [where ev = error500_env] unfolding e len cur tr by simp
  from ne gb Q B S E show ?thesis by blast
qed

section \<open>Properties of the dispatcher\<close>

text \<open>The effects of the transfer engine: the request for the asset, the opening of the
  destination and the calls of the progress callback.\<close>

fun is_transfer :: "effect \<Rightarrow> bool" where
  "is_transfer (HttpGet url) = True"
| "is_transfer (OpenWrite path) = True"
| "is_transfer (Progress p d t) = True"
| "is_transfer e = False"

text \<open>Two worlds with the same files and the same effects of the transfer engine.\<close>

definition same_transfer :: "world \<Rightarrow> world \<Rightarrow> bool" where
  "same_transfer w w' =
     (files w' = files w \<and> filter is_transfer (trace w') = filter is_transfer (trace w))"

lemma same_transfer_refl [simp]: "same_transfer w w"
  by (simp add: same_transfer_def)

lemma same_transfer_trans: "same_transfer w w1 \<Longrightarrow> same_transfer w1 w2 \<Longrightarrow> same_transfer w w2"
  by (simp add: same_transfer_def)

lemma same_transfer_emit: "\<not> is_transfer e \<Longrightarrow> same_transfer w w1 \<Longrightarrow> same_transfer w (emit e w1)"
  by (simp add: same_transfer_def emit_def)

lemma same_transfer_get_base_url: "same_transfer w (snd (get_base_url w))"
  by (simp add: same_transfer_def get_base_url_def Let_def)

lemma same_transfer_rotate_url: "same_transfer w (snd (rotate_url w))"
  by (simp add: same_transfer_def rotate_url_def get_base_url_def Let_def emit_def
        split: prod.splits sum.splits)

lemma same_transfer_rotate_after:
  "same_transfer w w1 \<Longrightarrow> same_transfer w (snd (rotate_url w1))"
  using same_transfer_rotate_url same_transfer_trans by blast

lemma same_transfer_attempt_request:
  "same_transfer w (snd (attempt_request cfg ev meth endpoint params attempt w))"
proof -
  obtain r w1 where gb: "get_base_url w = (r, w1)" by (cases "get_base_url w")
  have s1: "same_transfer w w1" using same_transfer_get_base_url [of w] gb by simp
  show ?thesis
  proof (cases r)
    case (Inl e)
    with gb s1 show ?thesis by (simp add: attempt_request_def)
  next
    case (Inr base_url)
    let ?url = "base_url @ endpoint"
    let ?w3 = "emit (HttpRequest meth ?url params) (emit (Log (LogRequest (attempt + 1) ?url)) w1)"
    have s3: "same_transfer w ?w3"
      using s1 by (simp add: same_transfer_emit)
    have s4: "same_transfer w (snd (rotate_url (emit (Log (Log404 endpoint)) ?w3)))"
      using s3 by (simp add: same_transfer_rotate_after same_transfer_emit)
    have s5: "\<And>n. same_transfer w (emit (Sleep n) ?w3)"
      using s3 by (simp add: same_transfer_emit)
    show ?thesis
      using gb Inr s3 s4 s5
      by (auto simp: attempt_request_def Let_def split: http_outcome.splits sum.splits prod.splits)
  qed
qed

lemma same_transfer_make_request_attempt:
  "same_transfer w (snd (make_request_attempt cfg ev meth endpoint params attempt w))"
proof -
  obtain r w1 where ar: "attempt_request cfg ev meth endpoint params attempt w = (r, w1)"
    by (cases "attempt_request cfg ev meth endpoint params attempt w")
  have s1: "same_transfer w w1"
    using same_transfer_attempt_request [of w cfg ev meth endpoint params attempt] ar by simp
  have s2: "\<And>e. same_transfer w (snd (rotate_url (emit (Log (LogRequestError e)) w1)))"
    using s1 by (simp add: same_transfer_rotate_after same_transfer_emit)
  have s3: "same_transfer w (emit (Sleep (RETRY_DELAY cfg)) (emit (Log (LogTimeout (attempt + 1))) w1))"
    using s1 by (simp add: same_transfer_emit)
  show ?thesis
  proof (cases r)
    case (Inr v)
    with ar s1 show ?thesis by (simp add: make_request_attempt_def)
  next
    case (Inl e)
    obtain r2 w2 where ro: "rotate_url (emit (Log (LogRequestError e)) w1) = (r2, w2)"
      by (cases "rotate_url (emit (Log (LogRequestError e)) w1)")
    with s2 [of e] have "same_transfer w w2" by simp
    with ar Inl ro s3 show ?thesis
      by (cases r2) (simp_all add: make_request_attempt_def)
  qed
qed

lemma same_transfer_make_request_loop:
  "same_transfer w (snd (make_request_loop cfg ev meth endpoint params attempts w))"
proof (induction attempts arbitrary: w)
  case Nil
  then show ?case by simp
next
  case (Cons a attempts)
  obtain r w1 where m: "make_request_attempt cfg ev meth endpoint params a w = (r, w1)"
    by (cases "make_request_attempt cfg ev meth endpoint params a w")
  have s1: "same_transfer w w1"
    using same_transfer_make_request_attempt [of w cfg ev meth endpoint params a] m by simp
  have s2: "same_transfer w (snd (make_request_loop cfg ev meth endpoint params attempts w1))"
    using s1 Cons.IH [of w1] same_transfer_trans by blast
  show ?case
    using m s1 s2 by (auto split: sum.splits option.splits)
qed

lemma same_transfer_make_request:
  "same_transfer w (snd (make_request cfg ev meth endpoint params w))"
  by (simp add: make_request_def same_transfer_make_request_loop)

lemma same_transfer_stream_body:
  "same_transfer w (snd (stream_body cfg ev quality endpoint w))"
proof -
  obtain r w1 where m: "make_request cfg ev ''GET'' endpoint (JDict [(''quality'', JStr quality)]) w = (r, w1)"
    by (cases "make_request cfg ev ''GET'' endpoint (JDict [(''quality'', JStr quality)]) w")
  have s1: "same_transfer w w1"
    using same_transfer_make_request [of w cfg ev "''GET''" endpoint "JDict [(''quality'', JStr quality)]"] m
    by simp
  have s2: "same_transfer w (emit (Log LogStreamUrlObtained) w1)"
    using s1 by (simp add: same_transfer_emit)
  show ?thesis
    using m s1 s2 by (auto simp: stream_body_def split: sum.splits)
qed

lemma same_transfer_try_endpoints:
  assumes "\<forall>c w. same_transfer w (snd (body c w))"
  shows "same_transfer w (snd (try_endpoints body on_error cs w))"
proof (induction cs arbitrary: w)
  case Nil
  then show ?case by simp
next
  case (Cons c cs)
  obtain r w1 where b: "body c w = (r, w1)" by (cases "body c w")
  have s1: "same_transfer w w1" using assms b by (metis snd_conv)
  have s2: "same_transfer w (snd (try_endpoints body on_error cs w1))"
    using s1 Cons.IH [of w1] same_transfer_trans by blast
  have s3: "\<And>e. same_transfer w (snd (try_endpoints body on_error cs (emit (Log (on_error c e)) w1)))"
    using s1 Cons.IH same_transfer_trans same_transfer_emit
    by (metis is_transfer.simps(4))
  show ?case
    using b s1 s2 s3 by (auto split: sum.splits option.splits)
qed

lemma same_transfer_get_stream_url:
  "same_transfer w (snd (get_stream_url cfg ev episode_id quality w))"
proof -
  let ?t = "try_endpoints (stream_body cfg ev quality) (\<lambda>c e. LogStreamUrlFailed e)
              (stream_endpoints ev episode_id) w"
  have b: "\<forall>c w. same_transfer w (snd (stream_body cfg ev quality c w))"
    by (simp add: same_transfer_stream_body)
  have s1: "same_transfer w (snd ?t)"
    using same_transfer_try_endpoints [OF b] .
  then have s2: "same_transfer w (emit (Log LogNoStreamUrlFound) (snd ?t))"
    by (simp add: same_transfer_emit)
  obtain r w1 where t: "?t = (r, w1)" by (cases ?t)
  show ?thesis
    using t s1 s2 by (auto simp: get_stream_url_def split: sum.splits option.splits)
qed

lemma same_transfer_call_bot: "same_transfer w w1 \<Longrightarrow> same_transfer w (snd (call_bot ev c w1))"
  by (simp add: call_bot_def same_transfer_emit split: option.splits)

text \<open>
  Claim C3. When the item reads well, the first status message is sent and
  \<open>get_stream_url\<close> yields no URL (None or another falsy value), \<open>_process_item\<close>
  returns with the files untouched and no effect of the transfer engine added to the
  trace: no download is requested and no destination is opened. Right after the
  resolution it edits the status message to the text that says the stream URL could not
  be got; what follows is the logged warning or, when that edit raised, the report of
  the outer handler.
\<close>

theorem unresolved_stream_url_skips_download:
  assumes uid: "py_subscript item ''user_id'' = Inr user_id"
      and ep: "py_subscript item ''episode'' = Inr episode"
      and eid: "py_get episode ''id'' (JStr ''unknown'') = Inr episode_id"
      and tit: "py_get episode ''title'' (JStr ''Unknown Episode'') = Inr episode_title"
      and sent: "bot_fault ev (trace w) (SendMessage user_id (MsgGettingStreamUrl episode_title)) = None"
      and res: "fst (get_stream_url cfg ev episode_id ''high''
                  (emit (Bot (SendMessage user_id (MsgGettingStreamUrl episode_title))) w)) = Inr url"
      and unresolved: "\<not> truthy url"
  shows "fst (process_item cfg ev item w) = Inr () \<and>
         files (snd (process_item cfg ev item w)) = files w \<and>
         filter is_transfer (trace (snd (process_item cfg ev item w))) =
           filter is_transfer (trace w) \<and>
         (\<exists>rest. trace (snd (process_item cfg ev item w)) =
            trace (snd (get_stream_url cfg ev episode_id ''high''
                     (emit (Bot (SendMessage user_id (MsgGettingStreamUrl episode_title))) w))) @
            Bot (EditText (MsgFailedStreamUrl episode_title)) # rest \<and>
            (rest = [Log (LogNoStreamUrl episode_id)] \<or>
             (\<exists>e. rest = [Log (LogProcessingError episode_id e), Bot (EditText (MsgError e))])))"
proof -
  let ?w1 = "emit (Bot (SendMessage user_id (MsgGettingStreamUrl episode_title))) w"
  let ?edit = "Bot (EditText (MsgFailedStreamUrl episode_title))"
  obtain w2 where g: "get_stream_url cfg ev episode_id ''high'' ?w1 = (Inr url, w2)"
    using res by (metis prod.collapse)
  have w2eq: "snd (get_stream_url cfg ev episode_id ''high'' ?w1) = w2"
    by (simp add: g)
  have s1: "same_transfer w ?w1"
    by (simp add: same_transfer_emit)
  have s2: "same_transfer w w2"
    using s1 same_transfer_get_stream_url [of ?w1 cfg ev episode_id "''high''"] same_transfer_trans
    unfolding w2eq by blast
  have cb: "call_bot ev (SendMessage user_id (MsgGettingStreamUrl episode_title)) w = (Inr (), ?w1)"
    using sent by (simp add: call_bot_def)
  show ?thesis
  proof (cases "bot_fault ev (trace w2) (EditText (MsgFailedStreamUrl episode_title))")
    case None
    then have steps: "process_item_steps cfg ev user_id episode episode_id episode_title ?w1 =
                 (Inr (), emit (Log (LogNoStreamUrl episode_id)) (emit ?edit w2))"
      using g unresolved by (simp add: process_item_steps_def call_bot_def)
    have pi: "process_item cfg ev item w =
                (Inr (), emit (Log (LogNoStreamUrl episode_id)) (emit ?edit w2))"
      using uid ep eid tit cb steps by (simp add: process_item_def)
    have "same_transfer w (emit (Log (LogNoStreamUrl episode_id)) (emit ?edit w2))"
      using s2 by (simp add: same_transfer_emit)
    then show ?thesis
      unfolding pi w2eq by (simp add: same_transfer_def)
  next
    case (Some e)
    then have steps: "process_item_steps cfg ev user_id episode episode_id episode_title ?w1 =
                 (Inl e, emit ?edit w2)"
      using g unresolved by (simp add: process_item_steps_def call_bot_def)
    let ?w4 = "emit (Log (LogProcessingError episode_id e)) (emit ?edit w2)"
    have pi: "process_item cfg ev item w =
                (Inr (), snd (call_bot ev (EditText (MsgError e)) ?w4))"
      using uid ep eid tit cb steps by (simp add: process_item_def)
    have tr: "trace (snd (call_bot ev (EditText (MsgError e)) ?w4)) =
                trace w2 @ [?edit, Log (LogProcessingError episode_id e), Bot (EditText (MsgError e))]"
      by (simp add: call_bot_def split: option.splits)
    have "same_transfer w (snd (call_bot ev (EditText (MsgError e)) ?w4))"
      using s2 by (simp add: same_transfer_call_bot same_transfer_emit)
    then show ?thesis
      unfolding pi w2eq using tr by (simp add: same_transfer_def)
  qed
qed

text \<open>The item of the end-to-end scenarios: requester 42, episode \<open>ep_1\<close> titled \<open>Test\<close>.\<close>

definition test_item :: json where
  "test_item = add_to_queue (JInt 42) (JDict [(''id'', JStr ''ep_1''), (''title'', JStr ''Test'')])"

lemma stream_url_all_404:
  "fst (get_stream_url default_config quiet_env (JStr ''ep_1'') ''high''
          (emit (Bot (SendMessage (JInt 42) (MsgGettingStreamUrl (JStr ''Test'')))) config_world)) =
     Inr JNull"
  by (simp add: get_stream_url_def stream_endpoints_def stream_body_def make_request_def
        make_request_attempt_def attempt_request_def get_base_url_def py_index_def rotate_url_def
        default_config_def quiet_env_def config_world_def Let_def emit_def upt_0_3)

theorem unresolved_stream_url_skips_download_witness:
  "py_subscript test_item ''user_id'' = Inr (JInt 42) \<and>
   py_subscript test_item ''episode'' = Inr (JDict [(''id'', JStr ''ep_1''), (''title'', JStr ''Test'')]) \<and>
   bot_fault quiet_env (trace config_world)
     (SendMessage (JInt 42) (MsgGettingStreamUrl (JStr ''Test''))) = None \<and>
   fst (get_stream_url default_config quiet_env (JStr ''ep_1'') ''high''
          (emit (Bot (SendMessage (JInt 42) (MsgGettingStreamUrl (JStr ''Test'')))) config_world)) =
     Inr JNull \<and>
   \<not> truthy JNull \<and>
   fst (process_item default_config quiet_env test_item config_world) = Inr () \<and>
   files (snd (process_item default_config quiet_env test_item config_world)) ''downloads/ep_1.mp3''
     = None \<and>
   filter is_transfer (trace (snd (process_item default_config quiet_env test_item config_world))) = [] \<and>
   Bot (EditText (MsgFailedStreamUrl (JStr ''Test''))) \<in>
     set (trace (snd (process_item default_config quiet_env test_item config_world)))"
proof -
  let ?ep = "JDict [(''id'', JStr ''ep_1''), (''title'', JStr ''Test'')]"
  have uid: "py_subscript test_item ''user_id'' = Inr (JInt 42)"
    by (simp add: test_item_def add_to_queue_def)
  have ep: "py_subscript test_item ''episode'' = Inr ?ep"
    by (simp add: test_item_def add_to_queue_def)
  have eid: "py_get ?ep ''id'' (JStr ''unknown'') = Inr (JStr ''ep_1'')" by simp
  have tit: "py_get ?ep ''title'' (JStr ''Unknown Episode'') = Inr (JStr ''Test'')" by simp
  have sent: "bot_fault quiet_env (trace config_world)
     (SendMessage (JInt 42) (MsgGettingStreamUrl (JStr ''Test''))) = None"
    by (simp add: quiet_env_def)
  have un: "\<not> truthy JNull" by simp
  have f0: "files config_world = (\<lambda>p. None)" and t0: "trace config_world = []"
    by (simp_all add: config_world_def)
  note T = unresolved_stream_url_skips_download [OF uid ep eid tit sent stream_url_all_404 un]
  from T have a: "fst (process_item default_config quiet_env test_item config_world) = Inr ()"
    by blast
  from T have b: "files (snd (process_item default_config quiet_env test_item config_world))
                    ''downloads/ep_1.mp3'' = None"
    unfolding f0 by simp
  from T have c: "filter is_transfer (trace (snd (process_item default_config quiet_env test_item
                    config_world))) = []"
    unfolding t0 by simp
  from T have d: "Bot (EditText (MsgFailedStreamUrl (JStr ''Test''))) \<in>
     set (trace (snd (process_item default_config quiet_env test_item config_world)))"
    by auto
  from uid ep sent stream_url_all_404 un a b c d show ?thesis by blast
qed

text \<open>
  The \<open>finally\<close> block removes the file on every path through the upload step, the
  failed upload included, whenever \<open>os.remove\<close> does not fail.
\<close>

lemma cleanup_removes:
  "remove_fault ev (trace w) filepath = None \<Longrightarrow> files (cleanup ev filepath w) filepath = None"
  by (simp add: cleanup_def emit_def)

lemma upload_step_removes:
  assumes "\<forall>h. remove_fault ev h filepath = None"
  shows "files (snd (upload_step ev user_id episode episode_id episode_title filepath w)) filepath = None"
proof -
  have "\<And>w2. files (cleanup ev filepath w2) filepath = None"
    using assms by (simp add: cleanup_removes)
  then show ?thesis
    by (simp add: upload_step_def split: prod.splits sum.splits)
qed

text \<open>
  The stream URL resolves at the first candidate, the download of five bytes succeeds,
  and the delivery \<open>bot.send_audio\<close> raises.
\<close>

definition upload_fail_env :: env where
  "upload_fail_env =
     quiet_env\<lparr>http := (\<lambda>h m u p. Responds 200 (Inr (JDict [(''url'', JStr ''http://cdn/ep_1.mp3'')]))),
               fetch := (\<lambda>h u. Fetched 200 (ContentLength 5) [Chunk 1000 ''abc'', Chunk 1003 ''de'']),
               bot_fault := (\<lambda>h c. case c of SendAudio u f t d \<Rightarrow> Some OtherError | _ \<Rightarrow> None)\<rparr>"

text \<open>
  Claim C1 at that input. The upload failure is reported as its own state (the message
  that the download is complete but the upload failed, which names the file as saved
  locally), and then the \<open>finally\<close> block removes the file: after the item is processed
  the downloaded file is gone.
\<close>

theorem upload_failure_deletes_artifact:
  "fst (process_item default_config upload_fail_env test_item config_world) = Inr () \<and>
   files (snd (process_item default_config upload_fail_env test_item config_world))
     ''downloads/ep_1.mp3'' = None \<and>
   trace (snd (process_item default_config upload_fail_env test_item config_world)) =
     [Bot (SendMessage (JInt 42) (MsgGettingStreamUrl (JStr ''Test''))),
      Log (LogRequest 1 ''https://api.pocketfm.in/api/v1/episodes/ep_1/stream''),
      HttpRequest ''GET'' ''https://api.pocketfm.in/api/v1/episodes/ep_1/stream''
        (JDict [(''quality'', JStr ''high'')]),
      Log LogStreamUrlObtained,
      Mkdir ''downloads'',
      Log (LogStartingDownload ''downloads/ep_1.mp3''),
      HttpGet (JStr ''http://cdn/ep_1.mp3''),
      OpenWrite ''downloads/ep_1.mp3'',
      Progress 60 3 5,
      Bot (EditText (MsgProgress (JStr ''Test'') 60 (5 / 1048576))),
      Progress 100 5 5,
      Bot (EditText (MsgProgress (JStr ''Test'') 100 (5 / 1048576))),
      Log (LogDownloadComplete ''downloads/ep_1.mp3''),
      Bot (EditText (MsgUploading (JStr ''Test''))),
      Bot (SendAudio (JInt 42) ''downloads/ep_1.mp3'' (JStr ''Test'') (JInt 0)),
      Log (LogUploadError OtherError),
      Bot (EditText (MsgUploadFailed ''downloads/ep_1.mp3'')),
      Remove ''downloads/ep_1.mp3'',
      Log (LogCleanedUp ''downloads/ep_1.mp3'')]"
  by (simp add: process_item_def process_item_steps_def upload_step_def deliver_def cleanup_def
        call_bot_def make_dirs_def path_join_def download_file_def receive_body_def
        parse_content_length_def open_wb_def append_bytes_def download_progress_def
        get_stream_url_def stream_endpoints_def stream_body_def extract_stream_url_def
        make_request_def make_request_attempt_def attempt_request_def get_base_url_def
        py_index_def test_item_def add_to_queue_def upload_fail_env_def quiet_env_def
        default_config_def config_world_def Let_def emit_def upt_0_3)

text \<open>
  The reads of the item before the \<open>try\<close> raise KeyError, TypeError or AttributeError,
  before anything is done; no other exception leaves \<open>_process_item\<close>.
\<close>

lemma py_subscript_exn: "py_subscript j k = Inl e \<Longrightarrow> e = KeyError \<or> e = TypeError"
  by (cases j) (auto split: option.splits)

lemma py_get_exn: "py_get j k d = Inl e \<Longrightarrow> e = AttributeError"
  by (cases j) auto

lemma process_item_exn:
  assumes "fst (process_item cfg ev item w) = Inl e"
  shows "e \<noteq> TimeoutError \<and> snd (process_item cfg ev item w) = w"
proof -
  have "e = KeyError \<or> e = TypeError \<or> e = AttributeError"
    using assms
    by (auto simp: process_item_def split: sum.splits prod.splits
          dest: py_subscript_exn py_get_exn)
  moreover have "snd (process_item cfg ev item w) = w"
    using assms
    by (auto simp: process_item_def split: sum.splits prod.splits)
  ultimately show ?thesis by auto
qed

lemma process_queue_round:
  "process_queue_loop cfg ev (Item item # rest) w =
     (case fst (process_item cfg ev item (emit (Dequeued item) w)) of
        Inr u \<Rightarrow> process_queue_loop cfg ev rest
                   (emit TaskDone (snd (process_item cfg ev item (emit (Dequeued item) w))))
      | Inl e \<Rightarrow> process_queue_loop cfg ev rest
                   (emit (Sleep 5) (emit (Log (LogQueueError e)) (emit (Dequeued item) w))))"
proof (cases "process_item cfg ev item (emit (Dequeued item) w)")
  case (Pair r w1)
  show ?thesis
  proof (cases r)
    case (Inr u)
    with Pair show ?thesis by simp
  next
    case (Inl e)
    with Pair process_item_exn [of cfg ev item "emit (Dequeued item) w" e]
    show ?thesis by simp
  qed
qed

lemma process_queue_loop_alive: "fst (process_queue_loop cfg ev rounds w) = Inr ()"
proof (induction rounds arbitrary: w)
  case Nil
  then show ?case by simp
next
  case (Cons r rounds)
  show ?case
  proof (cases r)
    case (Item item)
    then show ?thesis
      unfolding Item process_queue_round using Cons.IH by (simp split: sum.splits)
  next
    case (GetRaises e)
    then show ?thesis using Cons.IH by simp
  qed
qed

lemma process_queue_loop_append:
  "process_queue_loop cfg ev (rounds @ later) w =
     process_queue_loop cfg ev later (snd (process_queue_loop cfg ev rounds w))"
proof (induction rounds arbitrary: w)
  case Nil
  then show ?case by simp
next
  case (Cons r rounds)
  show ?case
  proof (cases r)
    case (Item item)
    show ?thesis
      unfolding Item append_Cons process_queue_round using Cons.IH by (simp split: sum.splits)
  next
    case (GetRaises e)
    then show ?thesis using Cons.IH by simp
  qed
qed

lemma process_item_catches:
  assumes uid: "py_subscript item ''user_id'' = Inr user_id"
      and ep: "py_subscript item ''episode'' = Inr episode"
      and eid: "py_get episode ''id'' (JStr ''unknown'') = Inr episode_id"
      and tit: "py_get episode ''title'' (JStr ''Unknown Episode'') = Inr episode_title"
  shows "fst (process_item cfg ev item w) = Inr ()"
    and "bot_fault ev (trace w) (SendMessage user_id (MsgGettingStreamUrl episode_title)) = Some e \<Longrightarrow>
         trace (snd (process_item cfg ev item w)) =
           trace w @ [Bot (SendMessage user_id (MsgGettingStreamUrl episode_title)),
                      Log (LogProcessingError episode_id e)]"
    and "bot_fault ev (trace w) (SendMessage user_id (MsgGettingStreamUrl episode_title)) = None \<Longrightarrow>
         process_item_steps cfg ev user_id episode episode_id episode_title
           (emit (Bot (SendMessage user_id (MsgGettingStreamUrl episode_title))) w) = (Inl e, w2) \<Longrightarrow>
         trace (snd (process_item cfg ev item w)) =
           trace w2 @ [Log (LogProcessingError episode_id e), Bot (EditText (MsgError e))]"
proof -
  show "fst (process_item cfg ev item w) = Inr ()"
    using assms by (simp add: process_item_def split: prod.splits sum.splits)
  show "trace (snd (process_item cfg ev item w)) =
           trace w @ [Bot (SendMessage user_id (MsgGettingStreamUrl episode_title)),
                      Log (LogProcessingError episode_id e)]"
    if "bot_fault ev (trace w) (SendMessage user_id (MsgGettingStreamUrl episode_title)) = Some e"
    using assms that by (simp add: process_item_def call_bot_def)
  show "trace (snd (process_item cfg ev item w)) =
           trace w2 @ [Log (LogProcessingError episode_id e), Bot (EditText (MsgError e))]"
    if "bot_fault ev (trace w) (SendMessage user_id (MsgGettingStreamUrl episode_title)) = None"
      and "process_item_steps cfg ev user_id episode episode_id episode_title
           (emit (Bot (SendMessage user_id (MsgGettingStreamUrl episode_title))) w) = (Inl e, w2)"
    using assms that by (simp add: process_item_def call_bot_def split: option.splits)
qed

text \<open>
  Claim C7. After any rounds of the queue, whatever failed in them, the loop of
  \<open>process_queue\<close> is still running, and it goes on with the rounds that follow from
  the world the earlier rounds left. An exception inside the \<open>try\<close> of \<open>_process_item\<close>
  (of any step, for an item that reads well) does not leave \<open>_process_item\<close>: it is
  logged and, once the status message exists, reported on it. An exception that does
  leave \<open>_process_item\<close>, and one of the queue other than the timeout of the wait, is
  logged by the loop and followed by a sleep of 5 seconds before the next round.
\<close>

theorem dispatcher_loop_survives:
  "fst (process_queue cfg ev rounds w) = Inr () \<and>
   process_queue_loop cfg ev (rounds @ later) w =
     process_queue_loop cfg ev later (snd (process_queue_loop cfg ev rounds w)) \<and>
   (py_subscript item ''user_id'' = Inr user_id \<and>
    py_subscript item ''episode'' = Inr episode \<and>
    py_get episode ''id'' (JStr ''unknown'') = Inr episode_id \<and>
    py_get episode ''title'' (JStr ''Unknown Episode'') = Inr episode_title \<longrightarrow>
      fst (process_item cfg ev item w) = Inr () \<and>
      (\<forall>e. bot_fault ev (trace w) (SendMessage user_id (MsgGettingStreamUrl episode_title)) = Some e \<longrightarrow>
         trace (snd (process_item cfg ev item w)) =
           trace w @ [Bot (SendMessage user_id (MsgGettingStreamUrl episode_title)),
                      Log (LogProcessingError episode_id e)]) \<and>
      (\<forall>e w2.
         bot_fault ev (trace w) (SendMessage user_id (MsgGettingStreamUrl episode_title)) = None \<and>
         process_item_steps cfg ev user_id episode episode_id episode_title
           (emit (Bot (SendMessage user_id (MsgGettingStreamUrl episode_title))) w) = (Inl e, w2) \<longrightarrow>
         trace (snd (process_item cfg ev item w)) =
           trace w2 @ [Log (LogProcessingError episode_id e), Bot (EditText (MsgError e))])) \<and>
   (\<forall>e. fst (process_item cfg ev item (emit (Dequeued item) w)) = Inl e \<longrightarrow>
      process_queue_loop cfg ev (Item item # later) w =
        process_queue_loop cfg ev later
          (emit (Sleep 5) (emit (Log (LogQueueError e)) (emit (Dequeued item) w)))) \<and>
   (\<forall>e. e \<noteq> TimeoutError \<longrightarrow>
      process_queue_loop cfg ev (GetRaises e # later) w =
        process_queue_loop cfg ev later (emit (Sleep 5) (emit (Log (LogQueueError e)) w)))"
proof -
  have A: "fst (process_queue cfg ev rounds w) = Inr ()"
    by (simp add: process_queue_def process_queue_loop_alive)
  have B: "process_queue_loop cfg ev (rounds @ later) w =
     process_queue_loop cfg ev later (snd (process_queue_loop cfg ev rounds w))"
    by (rule process_queue_loop_append)
  have C: "py_subscript item ''user_id'' = Inr user_id \<and>
    py_subscript item ''episode'' = Inr episode \<and>
    py_get episode ''id'' (JStr ''unknown'') = Inr episode_id \<and>
    py_get episode ''title'' (JStr ''Unknown Episode'') = Inr episode_title \<longrightarrow>
      fst (process_item cfg ev item w) = Inr () \<and>
      (\<forall>e. bot_fault ev (trace w) (SendMessage user_id (MsgGettingStreamUrl episode_title)) = Some e \<longrightarrow>
         trace (snd (process_item cfg ev item w)) =
           trace w @ [Bot (SendMessage user_id (MsgGettingStreamUrl episode_title)),
                      Log (LogProcessingError episode_id e)]) \<and>
      (\<forall>e w2.
         bot_fault ev (trace w) (SendMessage user_id (MsgGettingStreamUrl episode_title)) = None \<and>
         process_item_steps cfg ev user_id episode episode_id episode_title
           (emit (Bot (SendMessage user_id (MsgGettingStreamUrl episode_title))) w) = (Inl e, w2) \<longrightarrow>
         trace (snd (process_item cfg ev item w)) =
           trace w2 @ [Log (LogProcessingError episode_id e), Bot (EditText (MsgError e))])"
    using process_item_catches [where item = item and user_id = user_id and episode = episode
            and episode_id = episode_id and episode_title = episode_title and cfg = cfg
            and ev = ev and w = w]
    by blast
  have D: "\<forall>e. fst (process_item cfg ev item (emit (Dequeued item) w)) = Inl e \<longrightarrow>
      process_queue_loop cfg ev (Item item # later) w =
        process_queue_loop cfg ev later
          (emit (Sleep 5) (emit (Log (LogQueueError e)) (emit (Dequeued item) w)))"
  proof (intro allI impI)
    fix e
    assume "fst (process_item cfg ev item (emit (Dequeued item) w)) = Inl e"
    then show "process_queue_loop cfg ev (Item item # later) w =
        process_queue_loop cfg ev later
          (emit (Sleep 5) (emit (Log (LogQueueError e)) (emit (Dequeued item) w)))"
      unfolding process_queue_round by simp
  qed
  have E: "\<forall>e. e \<noteq> TimeoutError \<longrightarrow>
      process_queue_loop cfg ev (GetRaises e # later) w =
        process_queue_loop cfg ev later (emit (Sleep 5) (emit (Log (LogQueueError e)) w))"
    by simp
  from A B C D E show ?thesis by blast
qed

text \<open>
  An item whose episode is a string, so that \<open>episode.get\<close> raises before the \<open>try\<close>;
  and an environment in which the stream URL resolves and creating the download
  directory raises.
\<close>

definition bad_item :: json where
  "bad_item = add_to_queue (JInt 42) (JStr ''ep_1'')"

definition mkdir_fail_env :: env where
  "mkdir_fail_env =
     quiet_env\<lparr>http := (\<lambda>h m u p. Responds 200 (Inr (JDict [(''url'', JStr ''http://cdn/ep_1.mp3'')]))),
               mkdir_fault := (\<lambda>h p. Some OtherError)\<rparr>"

lemma mkdir_fail_steps:
  "process_item_steps default_config mkdir_fail_env (JInt 42)
     (JDict [(''id'', JStr ''ep_1''), (''title'', JStr ''Test'')]) (JStr ''ep_1'') (JStr ''Test'')
     (emit (Bot (SendMessage (JInt 42) (MsgGettingStreamUrl (JStr ''Test'')))) config_world) =
   (Inl OtherError,
    config_world\<lparr>trace :=
      [Bot (SendMessage (JInt 42) (MsgGettingStreamUrl (JStr ''Test''))),
       Log (LogRequest 1 ''https://api.pocketfm.in/api/v1/episodes/ep_1/stream''),
       HttpRequest ''GET'' ''https://api.pocketfm.in/api/v1/episodes/ep_1/stream''
         (JDict [(''quality'', JStr ''high'')]),
       Log LogStreamUrlObtained,
       Mkdir ''downloads'']\<rparr>)"
  by (simp add: process_item_steps_def make_dirs_def
        get_stream_url_def stream_endpoints_def stream_body_def extract_stream_url_def
        make_request_def make_request_attempt_def attempt_request_def get_base_url_def
        py_index_def mkdir_fail_env_def quiet_env_def
        default_config_def config_world_def Let_def emit_def upt_0_3)

theorem dispatcher_loop_survives_witness:
  "py_subscript test_item ''user_id'' = Inr (JInt 42) \<and>
   py_subscript test_item ''episode'' = Inr (JDict [(''id'', JStr ''ep_1''), (''title'', JStr ''Test'')]) \<and>
   fst (process_queue default_config mkdir_fail_env
          [Item bad_item, GetRaises TimeoutError, Item test_item] config_world) = Inr () \<and>
   fst (process_item default_config mkdir_fail_env test_item config_world) = Inr () \<and>
   trace (snd (process_item default_config mkdir_fail_env test_item config_world)) =
     [Bot (SendMessage (JInt 42) (MsgGettingStreamUrl (JStr ''Test''))),
      Log (LogRequest 1 ''https://api.pocketfm.in/api/v1/episodes/ep_1/stream''),
      HttpRequest ''GET'' ''https://api.pocketfm.in/api/v1/episodes/ep_1/stream''
        (JDict [(''quality'', JStr ''high'')]),
      Log LogStreamUrlObtained,
      Mkdir ''downloads'',
      Log (LogProcessingError (JStr ''ep_1'') OtherError),
      Bot (EditText (MsgError OtherError))] \<and>
   fst (process_item default_config mkdir_fail_env bad_item (emit (Dequeued bad_item) config_world)) =
     Inl AttributeError \<and>
   process_queue_loop default_config mkdir_fail_env [Item bad_item] config_world =
     (Inr (), config_world\<lparr>trace :=
        [Dequeued bad_item, Log (LogQueueError AttributeError), Sleep 5]\<rparr>)"
proof -
  let ?ep = "JDict [(''id'', JStr ''ep_1''), (''title'', JStr ''Test'')]"
  have uid: "py_subscript test_item ''user_id'' = Inr (JInt 42)"
    by (simp add: test_item_def add_to_queue_def)
  have ep: "py_subscript test_item ''episode'' = Inr ?ep"
    by (simp add: test_item_def add_to_queue_def)
  have eid: "py_get ?ep ''id'' (JStr ''unknown'') = Inr (JStr ''ep_1'')" by simp
  have tit: "py_get ?ep ''title'' (JStr ''Unknown Episode'') = Inr (JStr ''Test'')" by simp
  have sent: "bot_fault mkdir_fail_env (trace config_world)
     (SendMessage (JInt 42) (MsgGettingStreamUrl (JStr ''Test''))) = None"
    by (simp add: mkdir_fail_env_def quiet_env_def)
  have bad: "fst (process_item default_config mkdir_fail_env bad_item
                    (emit (Dequeued bad_item) config_world)) = Inl AttributeError"
    by (simp add: process_item_def bad_item_def add_to_queue_def)
  note T1 = dispatcher_loop_survives [where cfg = default_config and ev = mkdir_fail_env
      and rounds = "[Item bad_item, GetRaises TimeoutError, Item test_item]" and w = config_world
      and item = test_item and user_id = "JInt 42" and episode = ?ep
      and episode_id = "JStr ''ep_1''" and episode_title = "JStr ''Test''"]
  note T2 = dispatcher_loop_survives [where cfg = default_config and ev = mkdir_fail_env
      and w = config_world and item = bad_item and later = "[]"]
  from T1 have a: "fst (process_queue default_config mkdir_fail_env
          [Item bad_item, GetRaises TimeoutError, Item test_item] config_world) = Inr ()"
    by blast
  from T1 uid ep eid tit have b: "fst (process_item default_config mkdir_fail_env test_item config_world) = Inr ()"
    by blast
  from T1 uid ep eid tit sent mkdir_fail_steps
  have c: "trace (snd (process_item default_config mkdir_fail_env test_item config_world)) =
     trace (config_world\<lparr>trace :=
      [Bot (SendMessage (JInt 42) (MsgGettingStreamUrl (JStr ''Test''))),
       Log (LogRequest 1 ''https://api.pocketfm.in/api/v1/episodes/ep_1/stream''),
       HttpRequest ''GET'' ''https://api.pocketfm.in/api/v1/episodes/ep_1/stream''
         (JDict [(''quality'', JStr ''high'')]),
       Log LogStreamUrlObtained,
       Mkdir ''downloads'']\<rparr>) @
     [Log (LogProcessingError (JStr ''ep_1'') OtherError), Bot (EditText (MsgError OtherError))]"
    by blast
  from T2 bad have d: "process_queue_loop default_config mkdir_fail_env [Item bad_item] config_world =
     process_queue_loop default_config mkdir_fail_env []
       (emit (Sleep 5) (emit (Log (LogQueueError AttributeError)) (emit (Dequeued bad_item) config_world)))"
    by blast
  have d': "process_queue_loop default_config mkdir_fail_env [Item bad_item] config_world =
     (Inr (), config_world\<lparr>trace :=
        [Dequeued bad_item, Log (LogQueueError AttributeError), Sleep 5]\<rparr>)"
    unfolding d by (simp add: emit_def config_world_def)
  from c have c': "trace (snd (process_item default_config mkdir_fail_env test_item config_world)) =
     [Bot (SendMessage (JInt 42) (MsgGettingStreamUrl (JStr ''Test''))),
      Log (LogRequest 1 ''https://api.pocketfm.in/api/v1/episodes/ep_1/stream''),
      HttpRequest ''GET'' ''https://api.pocketfm.in/api/v1/episodes/ep_1/stream''
        (JDict [(''quality'', JStr ''high'')]),
      Log LogStreamUrlObtained,
      Mkdir ''downloads'',
      Log (LogProcessingError (JStr ''ep_1'') OtherError),
      Bot (EditText (MsgError OtherError))]"
    by simp
  from uid ep a b c' bad d' show ?thesis by blast
qed

section \<open>Progress reporting and its throttle\<close>

text \<open>
  The percentages of the status updates that a trace records: the edits of the status
  message made by \<open>download_progress\<close>.
\<close>

fun progress_updates :: "effect list \<Rightarrow> real list" where
  "progress_updates [] = []"
| "progress_updates (Bot (EditText (MsgProgress t p s)) # es) = p # progress_updates es"
| "progress_updates (e # es) = progress_updates es"

text \<open>
  The clock readings of the chunks of a stream, whether the stream ends without an
  exception, and the bytes it delivers.
\<close>

fun chunk_times :: "stream_event list \<Rightarrow> real list" where
  "chunk_times [] = []"
| "chunk_times (Chunk t chunk # es) = t # chunk_times es"
| "chunk_times (StreamRaises e # es) = chunk_times es"

fun complete :: "stream_event list \<Rightarrow> bool" where
  "complete [] = True"
| "complete (Chunk t chunk # es) = complete es"
| "complete (StreamRaises e # es) = False"

fun received :: "stream_event list \<Rightarrow> int" where
  "received [] = 0"
| "received (Chunk t chunk # es) = int (length chunk) + received es"
| "received (StreamRaises e # es) = 0"

text \<open>
  The invariant of the throttle while a download runs, for chunks handled at clock
  readings between \<open>a\<close> and \<open>b\<close>: \<open>k\<close> status updates were made since the download
  began; the first was made at \<open>a\<close> or later, and each later one more than 2 seconds
  after the one before.
\<close>

lemma progress_updates_append:
  "progress_updates (xs @ ys) = progress_updates xs @ progress_updates ys"
  by (induction xs rule: progress_updates.induct) simp_all

definition throttled :: "real \<Rightarrow> real \<Rightarrow> nat \<Rightarrow> world \<Rightarrow> nat \<Rightarrow> bool" where
  "throttled a b n0 w k =
     (length (progress_updates (trace w)) = n0 + k \<and>
      (k = 0 \<or>
       (last_update w \<le> b \<and>
        (if k = 1 then a \<le> last_update w else a + 2 * (real k - 1) < last_update w))))"

lemma throttled_same:
  assumes "throttled a b n0 w k"
      and "length (progress_updates (trace w1)) = length (progress_updates (trace w))"
      and "last_update w1 = last_update w"
  shows "throttled a b n0 w1 k"
  using assms(1) unfolding throttled_def assms(2) assms(3) .

lemma download_progress_step:
  assumes inv: "throttled a b n0 w k" and lo: "a \<le> now w" and hi: "now w \<le> b"
  shows "fst (download_progress ev title percent d total_size w) = Inr () \<and>
         (\<exists>k'. throttled a b n0 (snd (download_progress ev title percent d total_size w)) k') \<and>
         progress_calls (trace (snd (download_progress ev title percent d total_size w))) =
           progress_calls (trace w) \<and>
         files (snd (download_progress ev title percent d total_size w)) = files w"
proof (cases "now w - last_update w > 2")
  case False
  then show ?thesis using inv by (auto simp: download_progress_def Let_def)
next
  case True
  let ?w' = "snd (download_progress ev title percent d total_size w)"
  let ?m = "Bot (EditText (MsgProgress title percent (real_of_int total_size / (1024 * 1024))))"
  have tr: "trace ?w' = trace w @ [?m]"
    using True by (simp add: download_progress_def Let_def call_bot_def split: option.splits)
  have lu: "last_update ?w' = now w"
    using True by (simp add: download_progress_def Let_def)
  have fl: "files ?w' = files w"
    using True by (simp add: download_progress_def Let_def call_bot_def split: option.splits)
  have cnt: "length (progress_updates (trace ?w')) = n0 + Suc k"
    using inv by (simp add: tr throttled_def progress_updates_append)
  have low0: "k = 0 \<Longrightarrow> a \<le> now w" using lo by simp
  have low1: "k \<noteq> 0 \<Longrightarrow> a + 2 * real k < now w"
  proof -
    assume "k \<noteq> 0"
    with inv have "a + 2 * (real k - 1) \<le> last_update w"
      by (auto simp: throttled_def split: if_splits)
    with True show ?thesis by simp
  qed
  have "throttled a b n0 ?w' (Suc k)"
    unfolding throttled_def using cnt low0 low1 hi lu by auto
  moreover have "fst (download_progress ev title percent d total_size w) = Inr ()"
    by (simp add: download_progress_def Let_def)
  moreover have "progress_calls (trace ?w') = progress_calls (trace w)"
    by (simp add: tr progress_calls_append)
  ultimately show ?thesis using fl by blast
qed

lemma write_chunks_throttled:
  assumes "throttled a b n0 w k"
      and "\<forall>t \<in> set (chunk_times chunks). a \<le> t \<and> t \<le> b"
  shows "\<exists>k'. throttled a b n0
           (snd (write_chunks path (Some (download_progress ev title)) total_size d chunks w)) k'"
  using assms
proof (induction chunks arbitrary: w k d)
  case Nil
  then show ?case by auto
next
  case (Cons c chunks)
  show ?case
  proof (cases c)
    case (StreamRaises e)
    with Cons.prems show ?thesis by auto
  next
    case (Chunk t data)
    let ?w1 = "append_bytes path data (w\<lparr>now := t\<rparr>)"
    let ?d1 = "d + int (length data)"
    have t: "a \<le> t \<and> t \<le> b" using Cons.prems(2) Chunk by simp
    have rest: "\<forall>t \<in> set (chunk_times chunks). a \<le> t \<and> t \<le> b"
      using Cons.prems(2) Chunk by simp
    have i1: "throttled a b n0 ?w1 k"
      by (rule throttled_same [OF Cons.prems(1)]) (simp_all add: append_bytes_def)
    show ?thesis
    proof (cases "total_size > 0")
      case False
      then show ?thesis
        using Chunk Cons.IH [OF i1 rest] by (simp add: Let_def)
    next
      case True
      let ?p = "real_of_int ?d1 / real_of_int total_size * 100"
      let ?w2 = "emit (Progress ?p ?d1 total_size) ?w1"
      have i2: "throttled a b n0 ?w2 k"
        by (rule throttled_same [OF i1]) (simp_all add: emit_def progress_updates_append)
      have n2: "a \<le> now ?w2" "now ?w2 \<le> b"
        using t by (simp_all add: emit_def append_bytes_def)
      obtain r w3 where cb: "download_progress ev title ?p ?d1 total_size ?w2 = (r, w3)"
        by (cases "download_progress ev title ?p ?d1 total_size ?w2")
      from download_progress_step [OF i2 n2, of ev title ?p ?d1 total_size] cb
      obtain k3 where r: "r = Inr ()" and i3: "throttled a b n0 w3 k3" by auto
      show ?thesis
        using Chunk True cb r Cons.IH [OF i3 rest] by (simp add: Let_def)
    qed
  qed
qed

lemma download_progress_quiet:
  "fst (download_progress ev title percent d total_size w) = Inr () \<and>
   progress_calls (trace (snd (download_progress ev title percent d total_size w))) =
     progress_calls (trace w)"
  by (simp add: download_progress_def Let_def call_bot_def progress_calls_append
        split: option.splits)

lemma write_chunks_calls:
  assumes "0 < total_size" and "complete chunks"
  shows "fst (write_chunks path (Some (download_progress ev title)) total_size d chunks w) = Inr () \<and>
         length (progress_calls (trace (snd (write_chunks path (Some (download_progress ev title))
                   total_size d chunks w)))) =
           length (progress_calls (trace w)) + length chunks \<and>
         (chunks \<noteq> [] \<longrightarrow>
            last (progress_calls (trace (snd (write_chunks path (Some (download_progress ev title))
                   total_size d chunks w)))) =
              (real_of_int (d + received chunks) / real_of_int total_size * 100,
               d + received chunks, total_size))"
  using assms(2)
proof (induction chunks arbitrary: w d)
  case Nil
  then show ?case by simp
next
  case (Cons c chunks)
  show ?case
  proof (cases c)
    case (StreamRaises e)
    with Cons.prems show ?thesis by simp
  next
    case (Chunk t data)
    let ?w1 = "append_bytes path data (w\<lparr>now := t\<rparr>)"
    let ?d1 = "d + int (length data)"
    let ?p = "real_of_int ?d1 / real_of_int total_size * 100"
    let ?w2 = "emit (Progress ?p ?d1 total_size) ?w1"
    obtain r w3 where cb: "download_progress ev title ?p ?d1 total_size ?w2 = (r, w3)"
      by (cases "download_progress ev title ?p ?d1 total_size ?w2")
    from download_progress_quiet [of ev title ?p ?d1 total_size ?w2] cb
    have r: "r = Inr ()" and c3: "progress_calls (trace w3) = progress_calls (trace ?w2)"
      by simp_all
    have c2: "progress_calls (trace ?w2) = progress_calls (trace w) @ [(?p, ?d1, total_size)]"
      by (simp add: append_bytes_def progress_calls_append)
    have comp: "complete chunks" using Cons.prems Chunk by simp
    note ih = Cons.IH [OF comp, of ?d1 w3]
    have step: "write_chunks path (Some (download_progress ev title)) total_size d (c # chunks) w =
                write_chunks path (Some (download_progress ev title)) total_size ?d1 chunks w3"
      using Chunk assms(1) cb r by (simp add: Let_def)
    have rec: "received (c # chunks) = int (length data) + received chunks"
      using Chunk by simp
    show ?thesis
    proof (cases "chunks = []")
      case True
      then show ?thesis
        unfolding step using c3 c2 rec by simp
    next
      case False
      then show ?thesis
        unfolding step using ih c3 c2 rec by (simp add: add.assoc)
    qed
  qed
qed

lemma throttled_emit:
  "throttled a b n0 w k \<Longrightarrow> progress_updates [e] = [] \<Longrightarrow> throttled a b n0 (emit e w) k"
  by (erule throttled_same) (simp_all add: emit_def progress_updates_append)

lemma throttled_bound:
  assumes "throttled a (a + L) n0 w k"
  shows "length (progress_updates (trace w)) = n0 + k \<and> (k \<le> 1 \<or> 2 * real k < L + 2)"
proof (cases "k \<le> 1")
  case True
  with assms show ?thesis by (simp add: throttled_def)
next
  case False
  with assms have "a + 2 * (real k - 1) < last_update w" and "last_update w \<le> a + L"
    by (auto simp: throttled_def split: if_splits)
  then have "2 * real k < L + 2" by simp
  with assms show ?thesis by (simp add: throttled_def)
qed

lemma receive_body_throttled:
  assumes "throttled a b n0 w k"
      and "\<forall>t \<in> set (chunk_times chunks). a \<le> t \<and> t \<le> b"
  shows "\<exists>k'. throttled a b n0
           (snd (receive_body ev filepath (Some (download_progress ev title)) cl chunks w)) k'"
proof (cases "parse_content_length cl")
  case (Inl e)
  with assms(1) show ?thesis by (auto simp: receive_body_def)
next
  case (Inr total_size)
  show ?thesis
  proof (cases "open_fault ev (trace w) filepath")
    case (Some e)
    have "throttled a b n0 (emit (OpenWrite filepath) w) k"
      using assms(1) by (simp add: throttled_emit)
    with Inr Some show ?thesis by (auto simp: receive_body_def open_wb_def)
  next
    case None
    let ?w1 = "(emit (OpenWrite filepath) w)\<lparr>files := (files w)(filepath \<mapsto> [])\<rparr>"
    have "throttled a b n0 ?w1 k"
      by (rule throttled_same [OF assms(1)]) (simp_all add: emit_def progress_updates_append)
    from write_chunks_throttled [OF this assms(2)] Inr None show ?thesis
      by (simp add: receive_body_def open_wb_def)
  qed
qed

lemma download_file_throttled:
  assumes "\<forall>t \<in> set (chunk_times chunks). a \<le> t \<and> t \<le> a + L"
      and "fetch ev (trace w @ [Log (LogStartingDownload filepath)]) url = Fetched status cl chunks"
  shows "\<exists>k. throttled a (a + L) (length (progress_updates (trace w)))
           (snd (download_file ev url filepath (Some (download_progress ev title)) w)) k"
proof -
  let ?n0 = "length (progress_updates (trace w))"
  let ?w1 = "emit (HttpGet url) (emit (Log (LogStartingDownload filepath)) w)"
  have t0: "throttled a (a + L) ?n0 w 0" by (simp add: throttled_def)
  then have t1: "throttled a (a + L) ?n0 ?w1 0" by (simp add: throttled_emit)
  show ?thesis
  proof (cases "status = 200 \<or> status = 206")
    case False
    have "throttled a (a + L) ?n0 (emit (Log (LogDownloadHttpFailed status)) ?w1) 0"
      using t1 by (simp add: throttled_emit)
    with False assms(2) show ?thesis
      by (auto simp: download_file_def Let_def)
  next
    case True
    obtain r w2 where rb: "receive_body ev filepath (Some (download_progress ev title)) cl chunks ?w1
                             = (r, w2)"
      by (cases "receive_body ev filepath (Some (download_progress ev title)) cl chunks ?w1")
    from receive_body_throttled [OF t1 assms(1), of ev filepath title cl] rb
    obtain k where t2: "throttled a (a + L) ?n0 w2 k" by auto
    have "\<And>l. throttled a (a + L) ?n0 (emit (Log l) w2) k"
      using t2 by (simp add: throttled_emit)
    with True assms(2) rb show ?thesis
      by (cases r) (auto simp: download_file_def Let_def)
  qed
qed

lemma download_file_calls:
  assumes "fetch ev (trace w @ [Log (LogStartingDownload filepath)]) url =
             Fetched status (ContentLength total_size) chunks"
      and "status = 200 \<or> status = 206" and "0 < total_size" and "complete chunks"
      and "open_fault ev (trace w @ [Log (LogStartingDownload filepath), HttpGet url]) filepath = None"
  shows "fst (download_file ev url filepath (Some (download_progress ev title)) w) = True \<and>
         length (progress_calls (trace (snd (download_file ev url filepath
                   (Some (download_progress ev title)) w)))) =
           length (progress_calls (trace w)) + length chunks \<and>
         (chunks \<noteq> [] \<and> received chunks = total_size \<longrightarrow>
            last (progress_calls (trace (snd (download_file ev url filepath
                   (Some (download_progress ev title)) w)))) = (100, total_size, total_size))"
proof -
  let ?w1 = "emit (HttpGet url) (emit (Log (LogStartingDownload filepath)) w)"
  let ?w2 = "(emit (OpenWrite filepath) ?w1)\<lparr>files := (files ?w1)(filepath \<mapsto> [])\<rparr>"
  let ?wc = "write_chunks filepath (Some (download_progress ev title)) total_size 0 chunks ?w2"
  have rb: "receive_body ev filepath (Some (download_progress ev title)) (ContentLength total_size)
              chunks ?w1 = ?wc"
    using assms(5) by (simp add: receive_body_def parse_content_length_def open_wb_def)
  note wc = write_chunks_calls [OF assms(3) assms(4), of filepath ev title 0 ?w2]
  obtain w3 where w3: "?wc = (Inr (), w3)"
    using wc by (metis prod.collapse)
  have c2: "progress_calls (trace ?w2) = progress_calls (trace w)"
    by (simp add: progress_calls_append)
  have df: "download_file ev url filepath (Some (download_progress ev title)) w =
              (True, emit (Log (LogDownloadComplete filepath)) w3)"
    using assms(1) assms(2) rb w3 by (simp add: download_file_def Let_def)
  have pc: "progress_calls (trace (emit (Log (LogDownloadComplete filepath)) w3)) =
              progress_calls (trace w3)"
    by (simp add: progress_calls_append)
  from wc w3 c2 have len: "length (progress_calls (trace w3)) =
      length (progress_calls (trace w)) + length chunks" by simp
  have lst: "chunks \<noteq> [] \<and> received chunks = total_size \<longrightarrow>
      last (progress_calls (trace w3)) = (100, total_size, total_size)"
    using wc w3 assms(3) by simp
  show ?thesis
    unfolding df using len lst pc by simp
qed

text \<open>
  The simulated transfer: a progress event every 100 ms over 5 seconds, that is 50
  chunks of one byte handled at the clock readings 1000.1, 1000.2, ..., 1005.0, with a
  content-length of 50.
\<close>

definition sim_chunks :: "stream_event list" where
  "sim_chunks = map (\<lambda>k. Chunk (1000 + real k / 10) ''x'') [1..<51]"

definition sim_env :: env where
  "sim_env = quiet_env\<lparr>fetch := (\<lambda>h u. Fetched 200 (ContentLength 50) sim_chunks)\<rparr>"

text \<open>
  Claim C6 as stated fails on the simulated transfer. The transfer engine calls the
  callback for every chunk, 50 times, the last call with 100 percent. The throttle of
  \<open>download_progress\<close> turns three of the calls into status updates, at 2, 44 and 86
  percent: the last update does not report 100 percent, because the last call comes
  0.7 seconds after the third update and is dropped.
\<close>

theorem simulated_transfer_counterexample:
  "length (progress_calls (trace (snd (download_file sim_env (JStr ''http://cdn/ep_1.mp3'')
      ''downloads/ep_1.mp3'' (Some (download_progress sim_env (JStr ''Test''))) config_world)))) = 50 \<and>
   last (progress_calls (trace (snd (download_file sim_env (JStr ''http://cdn/ep_1.mp3'')
      ''downloads/ep_1.mp3'' (Some (download_progress sim_env (JStr ''Test''))) config_world)))) =
     (100, 50, 50) \<and>
   progress_updates (trace (snd (download_file sim_env (JStr ''http://cdn/ep_1.mp3'')
      ''downloads/ep_1.mp3'' (Some (download_progress sim_env (JStr ''Test''))) config_world))) =
     [2, 44, 86]"
  by (simp add: download_file_def receive_body_def parse_content_length_def open_wb_def
        append_bytes_def download_progress_def call_bot_def sim_env_def sim_chunks_def upt_rec
        quiet_env_def config_world_def Let_def emit_def)

text \<open>
  Claim C6, amended. The throttle is in the dispatcher's callback: when the chunks of a
  download are handled within a window of \<open>L\<close> seconds of the event loop's clock, the
  number \<open>k\<close> of status updates made during the download is at most 1, or satisfies
  \<open>2 * k < L + 2\<close> (the updates are more than 2 seconds apart); so at most 3 in 5 seconds
  and at most 1 in 2 seconds, at any arrival rate of the chunks. The transfer engine
  itself is not throttled: with a known positive total and a stream that ends without
  an exception it calls the callback once for each chunk, and the last call reports 100
  percent when the bytes received equal the total.
\<close>

theorem status_updates_throttled:
  assumes "fetch ev (trace w @ [Log (LogStartingDownload filepath)]) url = Fetched status cl chunks"
      and "\<forall>t \<in> set (chunk_times chunks). a \<le> t \<and> t \<le> a + L"
  shows "(\<exists>k. length (progress_updates (trace (snd (download_file ev url filepath
                 (Some (download_progress ev title)) w)))) =
               length (progress_updates (trace w)) + k \<and>
             (k \<le> 1 \<or> 2 * real k < L + 2)) \<and>
         ((status = 200 \<or> status = 206) \<and> cl = ContentLength total_size \<and> 0 < total_size \<and>
          complete chunks \<and>
          open_fault ev (trace w @ [Log (LogStartingDownload filepath), HttpGet url]) filepath = None \<longrightarrow>
            fst (download_file ev url filepath (Some (download_progress ev title)) w) = True \<and>
            length (progress_calls (trace (snd (download_file ev url filepath
                      (Some (download_progress ev title)) w)))) =
              length (progress_calls (trace w)) + length chunks \<and>
            (chunks \<noteq> [] \<and> received chunks = total_size \<longrightarrow>
               last (progress_calls (trace (snd (download_file ev url filepath
                      (Some (download_progress ev title)) w)))) = (100, total_size, total_size)))"
proof -
  obtain k where "throttled a (a + L) (length (progress_updates (trace w)))
           (snd (download_file ev url filepath (Some (download_progress ev title)) w)) k"
    using download_file_throttled [OF assms(2) assms(1)] by blast
  then have bound: "\<exists>k. length (progress_updates (trace (snd (download_file ev url filepath
                 (Some (download_progress ev title)) w)))) =
               length (progress_updates (trace w)) + k \<and>
             (k \<le> 1 \<or> 2 * real k < L + 2)"
    using throttled_bound by blast
  have calls: "(status = 200 \<or> status = 206) \<and> cl = ContentLength total_size \<and> 0 < total_size \<and>
          complete chunks \<and>
          open_fault ev (trace w @ [Log (LogStartingDownload filepath), HttpGet url]) filepath = None \<longrightarrow>
            fst (download_file ev url filepath (Some (download_progress ev title)) w) = True \<and>
            length (progress_calls (trace (snd (download_file ev url filepath
                      (Some (download_progress ev title)) w)))) =
              length (progress_calls (trace w)) + length chunks \<and>
            (chunks \<noteq> [] \<and> received chunks = total_size \<longrightarrow>
               last (progress_calls (trace (snd (download_file ev url filepath
                      (Some (download_progress ev title)) w)))) = (100, total_size, total_size))"
  proof
    assume h: "(status = 200 \<or> status = 206) \<and> cl = ContentLength total_size \<and> 0 < total_size \<and>
          complete chunks \<and>
          open_fault ev (trace w @ [Log (LogStartingDownload filepath), HttpGet url]) filepath = None"
    then have f: "fetch ev (trace w @ [Log (LogStartingDownload filepath)]) url =
                    Fetched status (ContentLength total_size) chunks"
      using assms(1) by simp
    from h have s: "status = 200 \<or> status = 206" and p: "0 < total_size" and c: "complete chunks"
      and o: "open_fault ev (trace w @ [Log (LogStartingDownload filepath), HttpGet url]) filepath = None"
      by simp_all
    show "fst (download_file ev url filepath (Some (download_progress ev title)) w) = True \<and>
            length (progress_calls (trace (snd (download_file ev url filepath
                      (Some (download_progress ev title)) w)))) =
              length (progress_calls (trace w)) + length chunks \<and>
            (chunks \<noteq> [] \<and> received chunks = total_size \<longrightarrow>
               last (progress_calls (trace (snd (download_file ev url filepath
                      (Some (download_progress ev title)) w)))) = (100, total_size, total_size))"
      by (rule download_file_calls [OF f s p c o])
  qed
  from bound calls show ?thesis by blast
qed

theorem status_updates_throttled_witness:
  "fetch sim_env (trace config_world @ [Log (LogStartingDownload ''downloads/ep_1.mp3'')])
     (JStr ''http://cdn/ep_1.mp3'') = Fetched 200 (ContentLength 50) sim_chunks \<and>
   list_all (\<lambda>t. 1000 \<le> t \<and> t \<le> 1000 + 5) (chunk_times sim_chunks) \<and>
   length sim_chunks = 50 \<and> complete sim_chunks \<and> received sim_chunks = 50 \<and>
   length (progress_updates (trace (snd (download_file sim_env (JStr ''http://cdn/ep_1.mp3'')
      ''downloads/ep_1.mp3'' (Some (download_progress sim_env (JStr ''Test''))) config_world)))) \<le> 3 \<and>
   length (progress_calls (trace (snd (download_file sim_env (JStr ''http://cdn/ep_1.mp3'')
      ''downloads/ep_1.mp3'' (Some (download_progress sim_env (JStr ''Test''))) config_world)))) = 50 \<and>
   last (progress_calls (trace (snd (download_file sim_env (JStr ''http://cdn/ep_1.mp3'')
      ''downloads/ep_1.mp3'' (Some (download_progress sim_env (JStr ''Test''))) config_world)))) =
     (100, 50, 50)"
proof -
  let ?W = "snd (download_file sim_env (JStr ''http://cdn/ep_1.mp3'')
      ''downloads/ep_1.mp3'' (Some (download_progress sim_env (JStr ''Test''))) config_world)"
  have f: "fetch sim_env (trace config_world @ [Log (LogStartingDownload ''downloads/ep_1.mp3'')])
     (JStr ''http://cdn/ep_1.mp3'') = Fetched 200 (ContentLength 50) sim_chunks"
    by (simp add: sim_env_def)
  have win: "list_all (\<lambda>t. 1000 \<le> t \<and> t \<le> 1000 + 5) (chunk_times sim_chunks)"
    by (simp add: sim_chunks_def upt_rec)
  then have win': "\<forall>t \<in> set (chunk_times sim_chunks). 1000 \<le> t \<and> t \<le> 1000 + 5"
    by (simp add: list_all_iff)
  have len: "length sim_chunks = 50" by (simp add: sim_chunks_def)
  have ne: "sim_chunks \<noteq> []" using len by auto
  have comp: "complete sim_chunks" by (simp add: sim_chunks_def upt_rec)
  have rec: "received sim_chunks = 50" by (simp add: sim_chunks_def upt_rec)
  have op: "open_fault sim_env (trace config_world @
      [Log (LogStartingDownload ''downloads/ep_1.mp3''), HttpGet (JStr ''http://cdn/ep_1.mp3'')])
      ''downloads/ep_1.mp3'' = None"
    by (simp add: sim_env_def quiet_env_def)
  have t0: "progress_updates (trace config_world) = []" "progress_calls (trace config_world) = []"
    by (simp_all add: config_world_def)
  note T = status_updates_throttled [OF f win', of "JStr ''Test''" 50]
  from T obtain k where k: "length (progress_updates (trace ?W)) = k"
      and kb: "k \<le> 1 \<or> 2 * real k < 5 + 2"
    unfolding t0 by auto
  from kb have "k \<le> 3" by auto
  with k have a: "length (progress_updates (trace ?W)) \<le> 3" by simp
  from T comp op have b: "length (progress_calls (trace ?W)) = 50"
    unfolding t0 len by simp
  from T comp op ne rec have c: "last (progress_calls (trace ?W)) = (100, 50, 50)"
    by simp
  from f win len comp rec a b c show ?thesis by blast
qed

end
